theory Spec2Isabelle
  imports Complex_Main "HOL-Library.Word"
begin

section \<open>Audio energy bars (\<^verbatim>\<open>ShowcaseLayout.tsx\<close>, \<^verbatim>\<open>animate\<close>)\<close>

text \<open>
  Both analysis effects of \<^verbatim>\<open>ShowcaseLayout.tsx\<close> (bot audio, lines 167-185, and
  microphone, lines 214-232) run the same loop over \<^verbatim>\<open>dataArray\<close>, a
  \<^verbatim>\<open>Uint8Array\<close> of \<^verbatim>\<open>analyser.fftSize = 256\<close> bytes:
  \<^verbatim>\<open>
  const segmentSize = Math.floor(dataArray.length / 32);
  for (let i = 0; i < 32; i++) {
    let sum = 0;
    for (let j = 0; j < segmentSize; j++) {
      const val = Math.abs((dataArray[i * segmentSize + j] - 128) / 128);
      sum += val * val;
    }
    const rms = Math.sqrt(sum / segmentSize);
    bars.push(Math.max(5, Math.min(95, rms * 400)));
  }
  \<close>
  A JavaScript number is modelled as \<open>real option\<close>: \<open>None\<close> is \<^verbatim>\<open>NaN\<close>, which is what
  a read past the end of the array (\<^verbatim>\<open>undefined - 128\<close>) and \<^verbatim>\<open>0 / 0\<close> (an empty
  segment) produce, and which \<^verbatim>\<open>Math.min\<close> and \<^verbatim>\<open>Math.max\<close> pass on. Arithmetic on
  the other numbers is exact real arithmetic: the rounding of \<^verbatim>\<open>Math.sqrt\<close> and of the
  product with 400 to binary64 is not modelled (the quotient by 128, the squares, their
  sum and the division by the segment size are exact in binary64 for a segment of 8
  bytes). The two loops are recursive functions over their counters.
\<close>

subsection \<open>Definitions\<close>

type_synonym byte = "8 word"

definition sample_val :: "byte list \<Rightarrow> nat \<Rightarrow> real option" where
  "sample_val dataArray k =
     (if k < length dataArray
      then Some \<bar>(real (unat (dataArray ! k)) - 128) / 128\<bar>
      else None)"

definition add_square :: "real option \<Rightarrow> real option \<Rightarrow> real option" where
  "add_square acc val =
     (case acc of None \<Rightarrow> None
      | Some a \<Rightarrow> (case val of None \<Rightarrow> None | Some v \<Rightarrow> Some (a + v * v)))"

function segment_sum :: "byte list \<Rightarrow> nat \<Rightarrow> nat \<Rightarrow> nat \<Rightarrow> real option \<Rightarrow> real option" where
  "segment_sum dataArray i segmentSize j acc =
     (if j < segmentSize
      then segment_sum dataArray i segmentSize (Suc j)
             (add_square acc (sample_val dataArray (i * segmentSize + j)))
      else acc)"
  by pat_completeness auto
termination
  by (relation "measure (\<lambda>(dataArray, i, segmentSize, j, acc). segmentSize - j)") auto

definition bar_height :: "real option \<Rightarrow> nat \<Rightarrow> real option" where
  "bar_height acc segmentSize =
     (case acc of None \<Rightarrow> None
      | Some a \<Rightarrow>
          if segmentSize = 0 then None
          else Some (max 5 (min 95 (sqrt (a / real segmentSize) * 400))))"

function bars_loop :: "byte list \<Rightarrow> nat \<Rightarrow> nat \<Rightarrow> real option list \<Rightarrow> real option list" where
  "bars_loop dataArray segmentSize i bars =
     (if i < 32
      then bars_loop dataArray segmentSize (Suc i)
             (bars @ [bar_height (segment_sum dataArray i segmentSize 0 (Some 0)) segmentSize])
      else bars)"
  by pat_completeness auto
termination
  by (relation "measure (\<lambda>(dataArray, segmentSize, i, bars). 32 - i)") auto

definition animate_bars :: "byte list \<Rightarrow> real option list" where
  "animate_bars dataArray = bars_loop dataArray (length dataArray div 32) 0 []"

text \<open>
  The quantities the specification names: the centred, normalised sample, the
  root-mean-square of a segment, the clamp into \<open>[5, 95]\<close> and the \<open>i\<close>-th contiguous
  segment of \<open>\<lfloor>length w / 32\<rfloor>\<close> samples.
\<close>

definition centered :: "byte \<Rightarrow> real" where
  "centered s = (real (unat s) - 128) / 128"

definition rms :: "byte list \<Rightarrow> real" where
  "rms seg = sqrt ((\<Sum>s\<leftarrow>seg. (centered s)\<^sup>2) / real (length seg))"

definition clamp_bar :: "real \<Rightarrow> real" where
  "clamp_bar x = max 5 (min 95 x)"

definition segment :: "byte list \<Rightarrow> nat \<Rightarrow> byte list" where
  "segment w i = take (length w div 32) (drop (i * (length w div 32)) w)"

subsection \<open>Properties\<close>

declare segment_sum.simps [simp del] bars_loop.simps [simp del]

lemma segment_sum_in_range:
  "i * segmentSize + segmentSize \<le> length dataArray \<Longrightarrow> j \<le> segmentSize \<Longrightarrow>
   segment_sum dataArray i segmentSize j (Some a) =
     Some (a + (\<Sum>k\<leftarrow>[j..<segmentSize]. (centered (dataArray ! (i * segmentSize + k)))\<^sup>2))"
proof (induction dataArray i segmentSize j "Some a" arbitrary: a rule: segment_sum.induct)
  case (1 dataArray i segmentSize j)
  show ?case
  proof (cases "j < segmentSize")
    case True
    then have rd: "sample_val dataArray (i * segmentSize + j) =
        Some \<bar>centered (dataArray ! (i * segmentSize + j))\<bar>"
      using "1.prems" by (simp add: sample_val_def centered_def)
    have "segment_sum dataArray i segmentSize j (Some a) =
        segment_sum dataArray i segmentSize (Suc j)
          (Some (a + (centered (dataArray ! (i * segmentSize + j)))\<^sup>2))"
      using True rd by (subst segment_sum.simps) (simp add: add_square_def power2_eq_square)
    also have "\<dots> = Some (a + (centered (dataArray ! (i * segmentSize + j)))\<^sup>2 +
        (\<Sum>k\<leftarrow>[Suc j..<segmentSize]. (centered (dataArray ! (i * segmentSize + k)))\<^sup>2))"
      using True rd "1.prems" "1.hyps"[OF True, of "a + (centered (dataArray ! (i * segmentSize + j)))\<^sup>2"]
      by (simp add: add_square_def power2_eq_square)
    finally show ?thesis
      using True by (simp add: upt_conv_Cons add.assoc)
  next
    case False
    then show ?thesis
      using "1.prems" by (subst segment_sum.simps) simp
  qed
qed

lemma segment_nth_list:
  "i * n + n \<le> length w \<Longrightarrow> map (\<lambda>k. w ! (i * n + k)) [0..<n] = take n (drop (i * n) w)"
  by (rule nth_equalityI) auto

lemma segment_sum_rms:
  assumes "i * segmentSize + segmentSize \<le> length dataArray" and "0 < segmentSize"
  shows "bar_height (segment_sum dataArray i segmentSize 0 (Some 0)) segmentSize =
           Some (clamp_bar (400 * rms (take segmentSize (drop (i * segmentSize) dataArray))))"
proof -
  have "(\<Sum>k\<leftarrow>[0..<segmentSize]. (centered (dataArray ! (i * segmentSize + k)))\<^sup>2) =
        (\<Sum>s\<leftarrow>map (\<lambda>k. dataArray ! (i * segmentSize + k)) [0..<segmentSize]. (centered s)\<^sup>2)"
    by (simp add: comp_def)
  also have "\<dots> = (\<Sum>s\<leftarrow>take segmentSize (drop (i * segmentSize) dataArray). (centered s)\<^sup>2)"
    using assms(1) by (simp only: segment_nth_list)
  finally have s: "segment_sum dataArray i segmentSize 0 (Some 0) =
      Some (\<Sum>s\<leftarrow>take segmentSize (drop (i * segmentSize) dataArray). (centered s)\<^sup>2)"
    using assms(1) by (simp add: segment_sum_in_range)
  have len: "min (length dataArray - i * segmentSize) segmentSize = segmentSize"
    using assms(1) by simp
  show ?thesis
    using assms(2) by (simp add: s bar_height_def rms_def clamp_bar_def len mult.commute)
qed

lemma bars_loop_map:
  "i \<le> 32 \<Longrightarrow> bars_loop dataArray segmentSize i bars =
     bars @ map (\<lambda>k. bar_height (segment_sum dataArray k segmentSize 0 (Some 0)) segmentSize) [i..<32]"
proof (induction dataArray segmentSize i bars rule: bars_loop.induct)
  case (1 dataArray segmentSize i bars)
  show ?case
  proof (cases "i < 32")
    case True
    then show ?thesis
      using "1.IH"[OF True] by (subst bars_loop.simps) (simp add: upt_conv_Cons)
  next
    case False
    then show ?thesis
      using "1.prems" by (subst bars_loop.simps) simp
  qed
qed

lemma animate_bars_length: "length (animate_bars w) = 32"
  by (simp add: animate_bars_def bars_loop_map)

lemma animate_bars_nth:
  assumes "length w = 256" and "i < 32"
  shows "animate_bars w ! i = Some (clamp_bar (400 * rms (segment w i)))"
proof -
  have "i * 8 + 8 \<le> length w"
    using assms by simp
  then show ?thesis
    using assms by (simp add: animate_bars_def bars_loop_map segment_def segment_sum_rms)
qed

lemma rms_silence: "\<forall>s\<in>set seg. s = 128 \<Longrightarrow> rms seg = 0"
proof -
  assume a: "\<forall>s\<in>set seg. s = 128"
  have "map (\<lambda>s. (centered s)\<^sup>2) seg = map (\<lambda>s. 0) seg"
    using a by (intro map_cong) (auto simp: centered_def)
  then have "(\<Sum>s\<leftarrow>seg. (centered s)\<^sup>2) = 0"
    by (simp only: sum_list_0)
  then show ?thesis
    by (simp add: rms_def)
qed

text \<open>
  Claim C1. For a sample window \<open>W\<close> of 256 bytes the analysis produces exactly 32 bars;
  bar \<open>i\<close> is the clamp into \<open>[5, 95]\<close> of 400 times the root-mean-square of the centred,
  normalised samples \<open>(s - 128) / 128\<close> of the \<open>i\<close>-th contiguous segment, whose length is
  \<open>\<lfloor>256 / 32\<rfloor> = 8\<close>; and for an all-silence window (every sample 128) every bar is 5.
\<close>

theorem animate_bars_rms:
  assumes "length W = 256"
  shows "length (animate_bars W) = 32 \<and>
         (\<forall>i<32. animate_bars W ! i = Some (clamp_bar (400 * rms (segment W i)))) \<and>
         (\<forall>i<32. length (segment W i) = 256 div 32 \<and> segment W i = take 8 (drop (8 * i) W)) \<and>
         ((\<forall>s\<in>set W. s = 128) \<longrightarrow> animate_bars W = replicate 32 (Some 5))"
proof (intro conjI allI impI)
  show "length (animate_bars W) = 32"
    by (rule animate_bars_length)
next
  fix i :: nat assume "i < 32"
  then show "animate_bars W ! i = Some (clamp_bar (400 * rms (segment W i)))"
    using assms by (rule animate_bars_nth[rotated])
next
  fix i :: nat assume "i < 32"
  then show "length (segment W i) = 256 div 32"
    using assms by (simp add: segment_def)
next
  fix i :: nat assume "i < 32"
  then show "segment W i = take 8 (drop (8 * i) W)"
    using assms by (simp add: segment_def mult.commute)
next
  assume sil: "\<forall>s\<in>set W. s = 128"
  show "animate_bars W = replicate 32 (Some 5)"
  proof (rule nth_equalityI)
    show "length (animate_bars W) = length (replicate 32 (Some (5::real)))"
      by (simp add: animate_bars_length)
  next
    fix i assume "i < length (animate_bars W)"
    then have i: "i < 32" by (simp add: animate_bars_length)
    have "\<forall>s\<in>set (segment W i). s = 128"
      using sil by (auto simp: segment_def dest!: in_set_takeD in_set_dropD)
    then have "rms (segment W i) = 0" by (rule rms_silence)
    then show "animate_bars W ! i = replicate 32 (Some 5) ! i"
      using i assms by (simp add: animate_bars_nth clamp_bar_def)
  qed
qed

text \<open>The theorem at the all-silence window.\<close>

theorem animate_bars_rms_witness:
  "length (replicate 256 (128::byte)) = 256 \<and>
   animate_bars (replicate 256 128) = replicate 32 (Some 5)"
  using animate_bars_rms [of "replicate 256 128"] by simp

section \<open>Life cycle of the analysis effects (\<^verbatim>\<open>ShowcaseLayout.tsx\<close>, lines 153-241)\<close>

text \<open>
  One run of an analysis effect owns the variables \<^verbatim>\<open>audioContext\<close> and
  \<^verbatim>\<open>animationId\<close> (\<open>None\<close> is \<^verbatim>\<open>undefined\<close>). The browser side of it is the
  animation-frame request it holds for the loop (\<open>pendingFrame\<close>), the counter from which
  \<^verbatim>\<open>requestAnimationFrame\<close> draws its non-zero ids, and, for the microphone, whether
  the promise of \<^verbatim>\<open>getUserMedia\<close> is still pending. \<open>setBarsCalls\<close> counts the calls of
  \<^verbatim>\<open>setMicBars\<close> / \<^verbatim>\<open>setBotBars\<close>, the only writers of the bar arrays.

  The bot-audio effect calls \<^verbatim>\<open>animate()\<close> in its body. The microphone effect calls it
  in the \<^verbatim>\<open>then\<close> callback of \<^verbatim>\<open>getUserMedia\<close>:
  \<^verbatim>\<open>
  let audioContext: AudioContext;  let analyser: AnalyserNode;  let animationId: number;
  navigator.mediaDevices.getUserMedia({ audio: true }).then(stream => {
    audioContext = new AudioContext();  ...
    const animate = () => { ...; setMicBars(bars); animationId = requestAnimationFrame(animate); };
    animate();
  });
  return () => {
    if (animationId) cancelAnimationFrame(animationId);
    if (audioContext) audioContext.close();
  };
  \<close>
  The events of a run are the settling of that promise, an animation frame (the browser
  runs the pending request, if it still holds one) and the cleanup of the effect. The
  analyser's current time-domain data is a function from the sample index to its byte;
  \<^verbatim>\<open>getByteTimeDomainData\<close> copies 256 of them into \<^verbatim>\<open>dataArray\<close>.
\<close>

subsection \<open>Definitions\<close>

datatype context_state = Running | Closed

datatype analyzer = Microphone | BotAudio

record analysis =
  audioContext :: "context_state option"
  animationId :: "nat option"
  pendingFrame :: "nat option"
  frameCounter :: nat
  mediaPending :: bool
  bars :: "real option list"
  setBarsCalls :: nat

datatype analysis_event =
    MediaGranted "nat \<Rightarrow> byte"
  | MediaDenied
  | AnimationFrame "nat \<Rightarrow> byte"
  | Cleanup

definition getByteTimeDomainData :: "(nat \<Rightarrow> byte) \<Rightarrow> byte list" where
  "getByteTimeDomainData samples = map samples [0..<256]"

definition requestAnimationFrame :: "analysis \<Rightarrow> analysis" where
  "requestAnimationFrame s =
     s\<lparr>frameCounter := Suc (frameCounter s),
       pendingFrame := Some (Suc (frameCounter s)),
       animationId := Some (Suc (frameCounter s))\<rparr>"

definition animate :: "(nat \<Rightarrow> byte) \<Rightarrow> analysis \<Rightarrow> analysis" where
  "animate samples s =
     requestAnimationFrame
       (s\<lparr>bars := animate_bars (getByteTimeDomainData samples),
          setBarsCalls := Suc (setBarsCalls s)\<rparr>)"

definition cancelAnimationFrame :: "nat \<Rightarrow> analysis \<Rightarrow> analysis" where
  "cancelAnimationFrame n s = (if pendingFrame s = Some n then s\<lparr>pendingFrame := None\<rparr> else s)"

definition cancel_if_set :: "analysis \<Rightarrow> analysis" where
  "cancel_if_set s =
     (case animationId s of
        None \<Rightarrow> s
      | Some n \<Rightarrow> if n \<noteq> 0 then cancelAnimationFrame n s else s)"

definition mic_cleanup :: "analysis \<Rightarrow> analysis" where
  "mic_cleanup s =
     (case audioContext (cancel_if_set s) of
        None \<Rightarrow> cancel_if_set s
      | Some c \<Rightarrow> (cancel_if_set s)\<lparr>audioContext := Some Closed\<rparr>)"

definition bot_cleanup :: "analysis \<Rightarrow> analysis" where
  "bot_cleanup s = (cancel_if_set s)\<lparr>audioContext := Some Closed\<rparr>"

definition mic_effect :: "real option list \<Rightarrow> nat \<Rightarrow> analysis" where
  "mic_effect micBars counter =
     \<lparr> audioContext = None, animationId = None, pendingFrame = None,
       frameCounter = counter, mediaPending = True, bars = micBars, setBarsCalls = 0 \<rparr>"

definition bot_effect :: "real option list \<Rightarrow> nat \<Rightarrow> (nat \<Rightarrow> byte) \<Rightarrow> analysis" where
  "bot_effect botBars counter samples =
     animate samples
       \<lparr> audioContext = Some Running, animationId = None, pendingFrame = None,
         frameCounter = counter, mediaPending = False, bars = botBars, setBarsCalls = 0 \<rparr>"

fun analysis_step :: "analyzer \<Rightarrow> analysis \<Rightarrow> analysis_event \<Rightarrow> analysis" where
  "analysis_step k s (MediaGranted samples) =
     (if mediaPending s
      then animate samples (s\<lparr>mediaPending := False, audioContext := Some Running\<rparr>)
      else s)"
| "analysis_step k s MediaDenied = s\<lparr>mediaPending := False\<rparr>"
| "analysis_step k s (AnimationFrame samples) =
     (case pendingFrame s of
        None \<Rightarrow> s
      | Some n \<Rightarrow> animate samples (s\<lparr>pendingFrame := None\<rparr>))"
| "analysis_step Microphone s Cleanup = mic_cleanup s"
| "analysis_step BotAudio s Cleanup = bot_cleanup s"

fun analysis_run :: "analyzer \<Rightarrow> analysis \<Rightarrow> analysis_event list \<Rightarrow> analysis" where
  "analysis_run k s [] = s"
| "analysis_run k s (e # es) = analysis_run k (analysis_step k s e) es"

text \<open>
  The request the browser holds is the one \<^verbatim>\<open>animationId\<close> names: this holds when an
  effect starts and after every event.
\<close>

definition frame_tracked :: "analysis \<Rightarrow> bool" where
  "frame_tracked s =
     (case pendingFrame s of
        None \<Rightarrow> True
      | Some n \<Rightarrow> animationId s = Some n \<and> n \<noteq> 0)"

definition silence :: "nat \<Rightarrow> byte" where
  "silence i = 128"

subsection \<open>Properties\<close>

lemmas analysis_defs = requestAnimationFrame_def animate_def cancelAnimationFrame_def
  cancel_if_set_def mic_cleanup_def bot_cleanup_def mic_effect_def bot_effect_def

lemma frame_tracked_step: "frame_tracked s \<Longrightarrow> frame_tracked (analysis_step k s e)"
  by (cases e; cases k)
     (auto simp: frame_tracked_def analysis_defs split: option.splits if_splits)

lemma frame_tracked_run: "frame_tracked s \<Longrightarrow> frame_tracked (analysis_run k s es)"
  by (induction es arbitrary: s) (simp_all add: frame_tracked_step)

lemma frame_tracked_start:
  "frame_tracked (mic_effect b c)" "frame_tracked (bot_effect b c samples)"
  by (simp_all add: frame_tracked_def analysis_defs)

lemma idle_run:
  "pendingFrame s = None \<Longrightarrow> \<not> mediaPending s \<Longrightarrow>
   setBarsCalls (analysis_run k s es) = setBarsCalls s \<and> bars (analysis_run k s es) = bars s"
proof (induction es arbitrary: s)
  case Nil
  then show ?case by simp
next
  case (Cons e es)
  have "pendingFrame (analysis_step k s e) = None \<and> \<not> mediaPending (analysis_step k s e)
      \<and> setBarsCalls (analysis_step k s e) = setBarsCalls s
      \<and> bars (analysis_step k s e) = bars s"
    using Cons.prems
    by (cases e; cases k) (auto simp: analysis_defs split: option.splits)
  then show ?case
    using Cons.IH[of "analysis_step k s e"] by simp
qed

text \<open>
  Once the stream has been acquired, the cleanup cancels the pending request and no bar
  array is written afterwards, whatever follows. The bot-audio effect is always in that
  case.
\<close>

lemma cleanup_stops_running_loop:
  assumes "frame_tracked s" and "\<not> mediaPending s"
  shows "setBarsCalls (analysis_run k (analysis_step k s Cleanup) es) = setBarsCalls s
       \<and> bars (analysis_run k (analysis_step k s Cleanup) es) = bars s"
proof -
  have "pendingFrame (analysis_step k s Cleanup) = None
      \<and> \<not> mediaPending (analysis_step k s Cleanup)
      \<and> setBarsCalls (analysis_step k s Cleanup) = setBarsCalls s
      \<and> bars (analysis_step k s Cleanup) = bars s"
    using assms
    by (cases k) (auto simp: frame_tracked_def analysis_defs split: option.splits)
  then show ?thesis
    using idle_run[of "analysis_step k s Cleanup" k es] by simp
qed

lemma bot_never_pending: "\<not> mediaPending (analysis_run BotAudio (bot_effect b c samples) es)"
proof -
  have "\<not> mediaPending s \<Longrightarrow> \<not> mediaPending (analysis_run BotAudio s es)" for s
  proof (induction es arbitrary: s)
    case (Cons e es)
    have "\<not> mediaPending (analysis_step BotAudio s e)"
      using Cons.prems by (cases e) (auto simp: analysis_defs split: option.splits)
    then show ?case using Cons.IH by simp
  qed simp
  then show ?thesis
    by (simp add: analysis_defs)
qed

lemma bot_cleanup_stops_animation:
  "setBarsCalls (analysis_run BotAudio
      (analysis_step BotAudio (analysis_run BotAudio (bot_effect b c samples) es) Cleanup) es')
   = setBarsCalls (analysis_run BotAudio (bot_effect b c samples) es)"
  using cleanup_stops_running_loop[where k = BotAudio and es = es'
      and s = "analysis_run BotAudio (bot_effect b c samples) es"]
    frame_tracked_run[OF frame_tracked_start(2)] bot_never_pending
  by (simp del: analysis_step.simps)

lemma pending_excludes_frame:
  assumes "\<not> mediaPending s \<or> pendingFrame s = None"
  shows "\<not> mediaPending (analysis_run k s es) \<or> pendingFrame (analysis_run k s es) = None"
  using assms
proof (induction es arbitrary: s)
  case (Cons e es)
  have "\<not> mediaPending (analysis_step k s e) \<or> pendingFrame (analysis_step k s e) = None"
    using Cons.prems
    by (cases e; cases k) (auto simp: analysis_defs split: option.splits if_splits)
  then show ?case
    using Cons.IH[of "analysis_step k s e"] by simp
qed simp

text \<open>
  In particular, for either analyzer and at any point of a run at which a frame request is
  pending, that is, while the loop is running, the cleanup ends all writing of the bars.
\<close>

lemma cleanup_stops_active_loop:
  assumes "s = analysis_run Microphone (mic_effect b c) es0
         \<or> s = analysis_run BotAudio (bot_effect b c samples) es0"
    and "pendingFrame s \<noteq> None"
  shows "setBarsCalls (analysis_run k (analysis_step k s Cleanup) es) = setBarsCalls s
       \<and> bars (analysis_run k (analysis_step k s Cleanup) es) = bars s"
proof -
  have "frame_tracked s"
    using assms(1) by (auto intro: frame_tracked_run frame_tracked_start)
  moreover have "\<not> mediaPending s \<or> pendingFrame s = None"
  proof -
    have m: "\<not> mediaPending (mic_effect b c) \<or> pendingFrame (mic_effect b c) = None"
      and o: "\<not> mediaPending (bot_effect b c samples)
          \<or> pendingFrame (bot_effect b c samples) = None"
      by (simp_all add: analysis_defs)
    show ?thesis
      using assms(1) pending_excludes_frame[OF m, of Microphone es0]
        pending_excludes_frame[OF o, of BotAudio es0]
      by (elim disjE) simp_all
  qed
  ultimately show ?thesis
    using assms(2) by (intro cleanup_stops_running_loop) auto
qed

text \<open>
  Claim C9 says that after the cleanup of an analysis effect no bar array is written any
  more, for the microphone analyzer and the bot-audio analyzer, at whatever moment of the
  effect's life the cleanup happens. The microphone effect breaks it when the cleanup
  runs while \<^verbatim>\<open>getUserMedia\<close> is still pending: \<^verbatim>\<open>animationId\<close> and
  \<^verbatim>\<open>audioContext\<close> are still undefined, the cleanup cancels and closes nothing, and
  the \<^verbatim>\<open>then\<close> callback starts the loop when the stream arrives. At that input
  \<^verbatim>\<open>setMicBars\<close> has not been called when the cleanup ends, and has been called three
  times after the grant and two frames; a request is still pending and the audio context
  is still running.
\<close>

theorem mic_animation_starts_after_cleanup:
  "setBarsCalls (analysis_run Microphone (mic_effect (replicate 32 (Some 5)) 0) [Cleanup]) = 0
   \<and> setBarsCalls (analysis_run Microphone (mic_effect (replicate 32 (Some 5)) 0)
        [Cleanup, MediaGranted silence, AnimationFrame silence, AnimationFrame silence]) = 3
   \<and> pendingFrame (analysis_run Microphone (mic_effect (replicate 32 (Some 5)) 0)
        [Cleanup, MediaGranted silence, AnimationFrame silence, AnimationFrame silence]) = Some 3
   \<and> audioContext (analysis_run Microphone (mic_effect (replicate 32 (Some 5)) 0)
        [Cleanup, MediaGranted silence, AnimationFrame silence, AnimationFrame silence])
      = Some Running"
  by (simp add: analysis_defs)

section \<open>The conversation store (\<^verbatim>\<open>App.tsx\<close>) and the layout's effects (\<^verbatim>\<open>ShowcaseLayout.tsx\<close>)\<close>

text \<open>
  \<^bold>\<open>Payloads.\<close> \<^verbatim>\<open>handleServerMessage\<close> takes \<^verbatim>\<open>message: any\<close>, so a server message is
  a JSON value; \<open>get_prop\<close> is property access (\<open>None\<close> is \<^verbatim>\<open>undefined\<close>), \<open>truthy\<close> the
  truthiness that \<^verbatim>\<open>||\<close> tests. The fields of \<^verbatim>\<open>CourseState\<close> hold whatever the
  handler stores, so they are JSON values too. A transcript payload is its \<^verbatim>\<open>text\<close>
  (absent, or a string) and, for the user, its \<^verbatim>\<open>final\<close> flag (absent, or a boolean).
  A string is a list of code units below 256; \<open>trim\<close> strips what
  \<^verbatim>\<open>String.prototype.trim\<close> strips in that range: TAB, LF, VT, FF, CR, the space and
  the no-break space U+00A0.

  \<^bold>\<open>State.\<close> One record holds the state of \<^verbatim>\<open>App\<close> (course state, the latest
  transcripts, the speaking flags, the streaming text, the ref
  \<^verbatim>\<open>streamingUserTextRef\<close> and the pending safety timeout, in milliseconds left), the
  state of \<^verbatim>\<open>ShowcaseLayout\<close> (transcript history, \<^verbatim>\<open>conversationState\<close>, the refs
  \<^verbatim>\<open>prevIsUserSpeaking\<close> and \<^verbatim>\<open>lastProcessedTts\<close>), \<^verbatim>\<open>client.state\<close> as the layout
  reads it when it renders, and the clock \<^verbatim>\<open>Date.now()\<close>. \<open>historyObject\<close> is the
  identity of the history array: React compares dependencies with \<^verbatim>\<open>Object.is\<close>, and
  an updater that returns \<^verbatim>\<open>prev\<close> keeps the identity while \<^verbatim>\<open>[...prev, x]\<close> and
  \<^verbatim>\<open>[]\<close> are new arrays.

  \<^bold>\<open>React, the layout.\<close> An effect runs on a pair: the store, in which an assignment to a
  ref (or to a timer) takes place at once (\<open>mutate\<close>), and the queue of state updates it
  has requested (\<open>setState\<close>), which React applies, in order, when it next renders
  (\<open>render\<close>). The updater functions of the layout read their argument, the values of the
  render that ran the effect and the clock, so that it makes no difference when React
  evaluates them. After a render, the effects whose dependencies differ from the previous
  render's run in the order of the component (\<open>run_effects\<close>), reading the values of that
  render (\<open>cur\<close>); what they request is rendered in turn. \<open>settle\<close> makes three such
  passes, after which a further pass changes nothing (lemma \<open>settle_quiescent\<close>). Every
  event is rendered and settled before the next one arrives.

  \<^bold>\<open>React, the callbacks of \<close>\<^verbatim>\<open>App\<close>\<^bold>\<open>.\<close> React evaluates the argument of a setter inside the
  call when the component has no lanes, that is, when neither of its two fibers carries an
  update, and at the next render otherwise. A component has lanes from the first update
  it queues; a render for an update of its own leaves them on the fiber that was current
  before, unless the render found the state unchanged; the next render of the tree in
  which the component has no update of its own resets them. So \<^verbatim>\<open>App\<close> is without lanes
  when it has mounted and whenever the layout has rendered alone since the last update of
  \<^verbatim>\<open>App\<close>, and it has lanes when it rendered last. The flag is threaded through the
  events beside the store (\<open>lanes_from\<close>, \<open>run_from\<close>). It matters to one callback: the
  updater of the safety timeout reads a ref that the callback empties after the call.

  \<^bold>\<open>Events.\<close> The callbacks registered in \<^verbatim>\<open>clientOptions\<close>, a change of
  \<^verbatim>\<open>client.state\<close>, an animation frame of a running analysis loop, and the passing of
  time, which fires the safety timeout when its 5000 ms are over. Time that passes
  contains no frame of its own: the frames of a running loop are events of the sequence
  (a page that is hidden gets none, while its timers and callbacks still run).
\<close>

subsection \<open>Definitions\<close>

text \<open>JSON values, truthiness, property access and \<^verbatim>\<open>message?.data ?? message\<close>.\<close>

datatype json =
    JNull
  | JBool bool
  | JNum real
  | JStr string
  | JArr "json list"
  | JObj "(string \<times> json) list"

fun truthy :: "json \<Rightarrow> bool" where
  "truthy JNull = False"
| "truthy (JBool b) = b"
| "truthy (JNum x) = (x \<noteq> 0)"
| "truthy (JStr s) = (s \<noteq> [])"
| "truthy (JArr xs) = True"
| "truthy (JObj kvs) = True"

fun get_prop :: "json \<Rightarrow> string \<Rightarrow> json option" where
  "get_prop (JObj kvs) k = map_of kvs k"
| "get_prop j k = None"

definition or_default :: "json option \<Rightarrow> json \<Rightarrow> json" where
  "or_default v d = (case v of None \<Rightarrow> d | Some x \<Rightarrow> if truthy x then x else d)"

definition message_data :: "json \<Rightarrow> json" where
  "message_data message =
     (case get_prop message ''data'' of
        None \<Rightarrow> message
      | Some d \<Rightarrow> if d = JNull then message else d)"

record CourseState =
  all_topics :: json
  discussed_topics :: json
  responses :: json
  remaining_topics :: json
  current_topics :: json
  current_node :: json
  progress :: json

datatype speaker = User | Bot

record TranscriptMessage =
  speaker :: speaker
  msg_text :: string
  timestamp :: nat

datatype InteractionMode = Idle | Listening | Thinking

record store =
  courseState :: CourseState
  transcripts_user :: string
  transcripts_bot :: string
  isBotSpeaking :: bool
  streamingUserText :: string
  isUserSpeaking :: bool
  streamingUserTextRef :: string
  safetyTimeout :: "nat option"
  transcriptHistory :: "TranscriptMessage list"
  historyObject :: nat
  conversationState :: InteractionMode
  prevIsUserSpeaking :: bool
  lastProcessedTts :: string
  transportState :: string
  now :: nat

type_synonym update = "store \<Rightarrow> store"
type_synonym act = "store \<times> update list"

text \<open>
  Effects of the layout: \<open>setState u\<close> appends an update to the queue; \<open>mutate f\<close> assigns
  a ref or a timer at once; \<open>render\<close> applies the queue, in order, to the store as the
  assignments left it.
\<close>

definition setState :: "update \<Rightarrow> act \<Rightarrow> act" where
  "setState u a = (fst a, snd a @ [u])"

definition mutate :: "(store \<Rightarrow> store) \<Rightarrow> act \<Rightarrow> act" where
  "mutate f a = (f (fst a), snd a)"

definition render :: "act \<Rightarrow> store" where
  "render a = foldl (\<lambda>s u. u s) (fst a) (snd a)"

text \<open>
  Callbacks of \<^verbatim>\<open>App\<close>. \<open>fiberLanes\<close> says whether \<^verbatim>\<open>App\<close> has an update pending or
  rendered last for an update of its own; \<open>component\<close> is the store, with the refs as the
  callback has assigned them so far; \<open>newObject\<close> records that an object-valued state
  (\<^verbatim>\<open>courseState\<close>, \<^verbatim>\<open>transcripts\<close>) is being replaced. A setter called while
  \<open>fiberLanes\<close> is false computes the next value at once, from the state and the refs as they
  are at the call: it drops the update when the value is the current one
  (\<^verbatim>\<open>Object.is\<close>; an object literal is never the current object) and queues the computed
  value otherwise. A setter called while \<open>fiberLanes\<close> is true queues its updater, which
  \<open>render_app\<close> evaluates at the render.
\<close>

record app_batch =
  fiberLanes :: bool
  component :: store
  updateQueue :: "update list"
  newObject :: bool

definition setValue ::
  "(store \<Rightarrow> 'v) \<Rightarrow> ('v \<Rightarrow> update) \<Rightarrow> (store \<Rightarrow> 'v) \<Rightarrow> app_batch \<Rightarrow> app_batch" where
  "setValue hook put next b =
     (if fiberLanes b
      then b\<lparr>updateQueue := updateQueue b @ [\<lambda>s. put (next s) s]\<rparr>
      else if next (component b) = hook (component b) then b
      else b\<lparr>fiberLanes := True,
             updateQueue := updateQueue b @ [put (next (component b))]\<rparr>)"

definition setObject :: "('v \<Rightarrow> update) \<Rightarrow> (store \<Rightarrow> 'v) \<Rightarrow> app_batch \<Rightarrow> app_batch" where
  "setObject put next b =
     (if fiberLanes b
      then b\<lparr>updateQueue := updateQueue b @ [\<lambda>s. put (next s) s], newObject := True\<rparr>
      else b\<lparr>fiberLanes := True,
             updateQueue := updateQueue b @ [put (next (component b))], newObject := True\<rparr>)"

definition assignRef :: "(store \<Rightarrow> store) \<Rightarrow> app_batch \<Rightarrow> app_batch" where
  "assignRef f b = b\<lparr>component := f (component b)\<rparr>"

definition render_app :: "app_batch \<Rightarrow> store" where
  "render_app b = foldl (\<lambda>s u. u s) (component b) (updateQueue b)"

text \<open>
  The five setters of \<^verbatim>\<open>App\<close> (lines 19-36). \<open>setTranscripts\<close> takes the updater
  function: from the store (the previous transcripts, and the refs the function reads) to
  the new pair of user and agent text.
\<close>

definition setCourseState :: "CourseState \<Rightarrow> app_batch \<Rightarrow> app_batch" where
  "setCourseState c = setObject (\<lambda>v s. s\<lparr>courseState := v\<rparr>) (\<lambda>s. c)"

definition setTranscripts :: "(store \<Rightarrow> string \<times> string) \<Rightarrow> app_batch \<Rightarrow> app_batch" where
  "setTranscripts next =
     setObject (\<lambda>v s. s\<lparr>transcripts_user := fst v, transcripts_bot := snd v\<rparr>) next"

definition setIsBotSpeaking :: "bool \<Rightarrow> app_batch \<Rightarrow> app_batch" where
  "setIsBotSpeaking v = setValue isBotSpeaking (\<lambda>v s. s\<lparr>isBotSpeaking := v\<rparr>) (\<lambda>s. v)"

definition setStreamingUserText :: "string \<Rightarrow> app_batch \<Rightarrow> app_batch" where
  "setStreamingUserText v =
     setValue streamingUserText (\<lambda>v s. s\<lparr>streamingUserText := v\<rparr>) (\<lambda>s. v)"

definition setIsUserSpeaking :: "bool \<Rightarrow> app_batch \<Rightarrow> app_batch" where
  "setIsUserSpeaking v = setValue isUserSpeaking (\<lambda>v s. s\<lparr>isUserSpeaking := v\<rparr>) (\<lambda>s. v)"

definition js_space :: "char \<Rightarrow> bool" where
  "js_space c =
     (c \<in> {CHR 0x09, CHR 0x0A, CHR 0x0B, CHR 0x0C, CHR 0x0D, CHR '' '', CHR 0xA0})"

definition trim :: "string \<Rightarrow> string" where
  "trim s = rev (dropWhile js_space (rev (dropWhile js_space s)))"

text \<open>
  \<^verbatim>\<open>App.tsx\<close>, lines 39-52:
  \<^verbatim>\<open>
  const data = message?.data ?? message;
  if (data?.type === 'conversation_state_update') {
    setCourseState({
      all_topics: data.all_topics || [],            discussed_topics: data.discussed_topics || [],
      responses: data.responses || {},              remaining_topics: data.remaining_topics || [],
      current_topics: data.current_topics || [],    current_node: data.current_node || 'initial',
      progress: data.progress || '0/3' });
  }
  \<close>
\<close>

definition course_of_payload :: "json \<Rightarrow> CourseState" where
  "course_of_payload d =
     \<lparr> all_topics = or_default (get_prop d ''all_topics'') (JArr []),
       discussed_topics = or_default (get_prop d ''discussed_topics'') (JArr []),
       responses = or_default (get_prop d ''responses'') (JObj []),
       remaining_topics = or_default (get_prop d ''remaining_topics'') (JArr []),
       current_topics = or_default (get_prop d ''current_topics'') (JArr []),
       current_node = or_default (get_prop d ''current_node'') (JStr ''initial''),
       progress = or_default (get_prop d ''progress'') (JStr ''0/3'') \<rparr>"

definition handleServerMessage :: "json \<Rightarrow> app_batch \<Rightarrow> app_batch" where
  "handleServerMessage message a =
     (let d = message_data message
      in if get_prop d ''type'' = Some (JStr ''conversation_state_update'')
         then setCourseState (course_of_payload d) a
         else a)"

text \<open>
  \<^verbatim>\<open>App.tsx\<close>, lines 54-68:
  \<^verbatim>\<open>
  const isFinal = data?.final !== false;
  if (data?.text) {
    if (!isFinal) {
      setStreamingUserText(data.text);  streamingUserTextRef.current = data.text;
      setIsUserSpeaking(true);
    } else {
      setTranscripts(prev => ({ ...prev, user: data.text }));
      setStreamingUserText('');  streamingUserTextRef.current = '';  setIsUserSpeaking(false);
    }
  }
  \<close>
\<close>

definition handleUserTranscript ::
  "string option \<Rightarrow> bool option \<Rightarrow> app_batch \<Rightarrow> app_batch" where
  "handleUserTranscript text_field final_field a =
     (let isFinal = (final_field \<noteq> Some False)
      in case text_field of
           None \<Rightarrow> a
         | Some t \<Rightarrow>
             if t = [] then a
             else if \<not> isFinal then
               (let a1 = setStreamingUserText t a;
                    a2 = assignRef (\<lambda>s. s\<lparr>streamingUserTextRef := t\<rparr>) a1
                in setIsUserSpeaking True a2)
             else
               (let a1 = setTranscripts (\<lambda>prev. (t, transcripts_bot prev)) a;
                    a2 = setStreamingUserText [] a1;
                    a3 = assignRef (\<lambda>s. s\<lparr>streamingUserTextRef := []\<rparr>) a2
                in setIsUserSpeaking False a3))"

text \<open>
  \<^verbatim>\<open>App.tsx\<close>, lines 70-99: the agent's text
  (\<^verbatim>\<open>setTranscripts(prev => ({ ...prev, bot: data.text }))\<close>), the speaking flags, and the
  two connection callbacks (\<^verbatim>\<open>handleConnected\<close> also empties both transcripts; neither
  touches the ref).
\<close>

definition handleBotTtsText :: "string option \<Rightarrow> app_batch \<Rightarrow> app_batch" where
  "handleBotTtsText text_field a =
     (case text_field of
        None \<Rightarrow> a
      | Some t \<Rightarrow>
          if t \<noteq> [] \<and> trim t \<noteq> []
          then setTranscripts (\<lambda>prev. (transcripts_user prev, t)) a
          else a)"

definition handleBotStartedSpeaking :: "app_batch \<Rightarrow> app_batch" where
  "handleBotStartedSpeaking a = setIsBotSpeaking True a"

definition handleBotStoppedSpeaking :: "app_batch \<Rightarrow> app_batch" where
  "handleBotStoppedSpeaking a = setIsBotSpeaking False a"

definition handleUserStartedSpeaking :: "app_batch \<Rightarrow> app_batch" where
  "handleUserStartedSpeaking a = setIsUserSpeaking True a"

definition handleConnected :: "app_batch \<Rightarrow> app_batch" where
  "handleConnected a =
     (let a1 = setTranscripts (\<lambda>prev. ([], [])) a;
          a2 = setStreamingUserText [] a1;
          a3 = setIsUserSpeaking False a2
      in setIsBotSpeaking False a3)"

definition handleDisconnected :: "app_batch \<Rightarrow> app_batch" where
  "handleDisconnected a =
     (let a1 = setStreamingUserText [] a;
          a2 = setIsUserSpeaking False a1
      in setIsBotSpeaking False a2)"

text \<open>
  \<^verbatim>\<open>App.tsx\<close>, lines 101-114. The effect depends on \<^verbatim>\<open>isUserSpeaking\<close> alone: it
  arms the timeout when the flag has become true and its cleanup clears it when the flag
  changes again.
  \<^verbatim>\<open>
  if (isUserSpeaking) {
    const timeout = setTimeout(() => {
      if (streamingUserTextRef.current) {
        setTranscripts(prev => ({ ...prev, user: streamingUserTextRef.current }));
      }
      setStreamingUserText('');
      streamingUserTextRef.current = '';
      setIsUserSpeaking(false);
    }, 5000);
    return () => clearTimeout(timeout);
  }
  \<close>
\<close>

definition safetyTimeoutCallback :: "app_batch \<Rightarrow> app_batch" where
  "safetyTimeoutCallback a =
     (let a1 = (if streamingUserTextRef (component a) \<noteq> []
                then setTranscripts (\<lambda>prev. (streamingUserTextRef prev, transcripts_bot prev)) a
                else a);
          a2 = setStreamingUserText [] a1;
          a3 = assignRef (\<lambda>s. s\<lparr>streamingUserTextRef := []\<rparr>) a2
      in setIsUserSpeaking False a3)"

definition safetyTimeoutEffect :: "store \<Rightarrow> act \<Rightarrow> act" where
  "safetyTimeoutEffect cur a =
     (if isUserSpeaking cur then mutate (\<lambda>s. s\<lparr>safetyTimeout := Some 5000\<rparr>) a else a)"

definition safetyTimeoutCleanup :: "store \<Rightarrow> act \<Rightarrow> act" where
  "safetyTimeoutCleanup old a =
     (if isUserSpeaking old then mutate (\<lambda>s. s\<lparr>safetyTimeout := None\<rparr>) a else a)"

text \<open>
  \<^verbatim>\<open>ShowcaseLayout.tsx\<close>, lines 91-98 (dependency: \<^verbatim>\<open>isUserSpeaking\<close>) and lines
  101-108 (dependencies: \<^verbatim>\<open>transcriptHistory\<close>, \<^verbatim>\<open>conversationState\<close>):
  \<^verbatim>\<open>
  if (!prevIsUserSpeaking.current && isUserSpeaking) setConversationState('listening');
  else if (prevIsUserSpeaking.current && !isUserSpeaking) setConversationState('thinking');
  prevIsUserSpeaking.current = isUserSpeaking;

  // Clear thinking when bot responds
  if (conversationState === 'thinking' && transcriptHistory.length > 0) {
    const last = transcriptHistory[transcriptHistory.length - 1];
    if (last?.speaker === 'bot') setConversationState('idle');
  }
  \<close>
\<close>

definition speakingEdgeEffect :: "store \<Rightarrow> act \<Rightarrow> act" where
  "speakingEdgeEffect cur a =
     (let a1 = (if \<not> prevIsUserSpeaking (fst a) \<and> isUserSpeaking cur
                then setState (\<lambda>s. s\<lparr>conversationState := Listening\<rparr>) a
                else if prevIsUserSpeaking (fst a) \<and> \<not> isUserSpeaking cur
                then setState (\<lambda>s. s\<lparr>conversationState := Thinking\<rparr>) a
                else a)
      in mutate (\<lambda>s. s\<lparr>prevIsUserSpeaking := isUserSpeaking cur\<rparr>) a1)"

definition clearThinkingEffect :: "store \<Rightarrow> act \<Rightarrow> act" where
  "clearThinkingEffect cur a =
     (if conversationState cur = Thinking \<and> length (transcriptHistory cur) > 0
      then (if speaker (last (transcriptHistory cur)) = Bot
            then setState (\<lambda>s. s\<lparr>conversationState := Idle\<rparr>) a
            else a)
      else a)"

text \<open>
  \<^verbatim>\<open>ShowcaseLayout.tsx\<close>, lines 111-121 (dependencies: \<^verbatim>\<open>transcripts.user\<close>,
  \<^verbatim>\<open>isUserSpeaking\<close>). \<open>appendUser\<close> is the updater function.
  \<^verbatim>\<open>
  if (transcripts.user && transcripts.user.trim() && !isUserSpeaking) {
    setTranscriptHistory(prev => {
      const lastUserMsg = [...prev].reverse().find(m => m.speaker === 'user');
      if (!lastUserMsg || lastUserMsg.text !== transcripts.user)
        return [...prev, { speaker: 'user', text: transcripts.user, timestamp: Date.now() }];
      return prev;
    });
  }
  \<close>
\<close>

definition appendUser :: "string \<Rightarrow> update" where
  "appendUser t s =
     (let prev = transcriptHistory s
      in case List.find (\<lambda>m. speaker m = User) (rev prev) of
           None \<Rightarrow>
             s\<lparr>transcriptHistory := prev @ [\<lparr>speaker = User, msg_text = t, timestamp = now s\<rparr>],
               historyObject := Suc (historyObject s)\<rparr>
         | Some lastUserMsg \<Rightarrow>
             if msg_text lastUserMsg \<noteq> t
             then s\<lparr>transcriptHistory := prev @ [\<lparr>speaker = User, msg_text = t, timestamp = now s\<rparr>],
                    historyObject := Suc (historyObject s)\<rparr>
             else s)"

definition userHistoryEffect :: "store \<Rightarrow> act \<Rightarrow> act" where
  "userHistoryEffect cur a =
     (if transcripts_user cur \<noteq> [] \<and> trim (transcripts_user cur) \<noteq> [] \<and> \<not> isUserSpeaking cur
      then setState (appendUser (transcripts_user cur)) a
      else a)"

text \<open>
  \<^verbatim>\<open>ShowcaseLayout.tsx\<close>, lines 124-134 (dependency: \<^verbatim>\<open>transcripts.bot\<close>):
  \<^verbatim>\<open>
  if (transcripts.bot && transcripts.bot.trim() && transcripts.bot !== lastProcessedTts.current) {
    lastProcessedTts.current = transcripts.bot;
    setTranscriptHistory(prev => {
      const lastBotMsg = [...prev].reverse().find(m => m.speaker === 'bot');
      if (lastBotMsg && lastBotMsg.text === transcripts.bot) return prev;
      return [...prev, { speaker: 'bot', text: transcripts.bot, timestamp: Date.now() }];
    });
  }
  \<close>
\<close>

definition appendBot :: "string \<Rightarrow> update" where
  "appendBot t s =
     (let prev = transcriptHistory s
      in case List.find (\<lambda>m. speaker m = Bot) (rev prev) of
           None \<Rightarrow>
             s\<lparr>transcriptHistory := prev @ [\<lparr>speaker = Bot, msg_text = t, timestamp = now s\<rparr>],
               historyObject := Suc (historyObject s)\<rparr>
         | Some lastBotMsg \<Rightarrow>
             if msg_text lastBotMsg = t then s
             else s\<lparr>transcriptHistory := prev @ [\<lparr>speaker = Bot, msg_text = t, timestamp = now s\<rparr>],
                    historyObject := Suc (historyObject s)\<rparr>)"

definition botHistoryEffect :: "store \<Rightarrow> act \<Rightarrow> act" where
  "botHistoryEffect cur a =
     (if transcripts_bot cur \<noteq> [] \<and> trim (transcripts_bot cur) \<noteq> []
         \<and> transcripts_bot cur \<noteq> lastProcessedTts (fst a)
      then (let a1 = mutate (\<lambda>s. s\<lparr>lastProcessedTts := transcripts_bot cur\<rparr>) a
            in setState (appendBot (transcripts_bot cur)) a1)
      else a)"

text \<open>
  \<^verbatim>\<open>ShowcaseLayout.tsx\<close>, lines 270-275 (dependency: \<^verbatim>\<open>transportState\<close>):
  \<^verbatim>\<open>
  // Reset history on new connection
  if (transportState === 'ready') { setTranscriptHistory([]); lastProcessedTts.current = ''; }
  \<close>
\<close>

definition resetHistoryEffect :: "store \<Rightarrow> act \<Rightarrow> act" where
  "resetHistoryEffect cur a =
     (if transportState cur = ''ready''
      then (let a1 = setState (\<lambda>s. s\<lparr>transcriptHistory := [],
                                       historyObject := Suc (historyObject s)\<rparr>) a
            in mutate (\<lambda>s. s\<lparr>lastProcessedTts := []\<rparr>) a1)
      else a)"

text \<open>
  One pass of effects after a render: the cleanup of the timeout effect first, then the
  effects of the layout in the order of the component, then the timeout effect of
  \<^verbatim>\<open>App\<close>; each runs only if one of its dependencies differs between the previous
  render (\<open>old\<close>) and this one (\<open>cur\<close>).
\<close>

definition useEffect :: "bool \<Rightarrow> (act \<Rightarrow> act) \<Rightarrow> act \<Rightarrow> act" where
  "useEffect deps_changed effect a = (if deps_changed then effect a else a)"

definition run_effects :: "store \<Rightarrow> store \<Rightarrow> act \<Rightarrow> act" where
  "run_effects old cur a =
     fold (\<lambda>effect. effect)
       [ useEffect (isUserSpeaking old \<noteq> isUserSpeaking cur) (safetyTimeoutCleanup old),
         useEffect (isUserSpeaking old \<noteq> isUserSpeaking cur) (speakingEdgeEffect cur),
         useEffect (historyObject old \<noteq> historyObject cur
                    \<or> conversationState old \<noteq> conversationState cur)
           (clearThinkingEffect cur),
         useEffect (transcripts_user old \<noteq> transcripts_user cur
                    \<or> isUserSpeaking old \<noteq> isUserSpeaking cur)
           (userHistoryEffect cur),
         useEffect (transcripts_bot old \<noteq> transcripts_bot cur) (botHistoryEffect cur),
         useEffect (transportState old \<noteq> transportState cur) (resetHistoryEffect cur),
         useEffect (isUserSpeaking old \<noteq> isUserSpeaking cur) (safetyTimeoutEffect cur) ]
       a"

definition effect_pass :: "store \<Rightarrow> store \<Rightarrow> store" where
  "effect_pass old cur = render (run_effects old cur (cur, []))"

fun effect_passes :: "nat \<Rightarrow> store \<Rightarrow> store \<Rightarrow> store" where
  "effect_passes 0 old cur = cur"
| "effect_passes (Suc n) old cur = effect_passes n cur (effect_pass old cur)"

definition settle :: "store \<Rightarrow> store \<Rightarrow> store" where
  "settle old s1 = effect_passes (Suc (Suc (Suc 0))) old s1"

text \<open>
  A callback of \<^verbatim>\<open>App\<close> runs on the store \<open>s\<close>, with \<open>l\<close> the state of \<open>fiberLanes\<close> when
  it is called; what it has queued is rendered and the effects settle (\<open>dispatch\<close>).
  \<open>dispatch_lanes\<close> is \<open>fiberLanes\<close> afterwards. Nothing queued: no render, and the flag
  stays. Otherwise \<^verbatim>\<open>App\<close> renders; if the effects of that render change the state of
  the layout, the layout renders once more on its own, which leaves \<^verbatim>\<open>App\<close> without
  lanes; if they do not, \<^verbatim>\<open>App\<close> rendered last, and it keeps lanes exactly when that
  render changed its state.
\<close>

definition event_batch :: "bool \<Rightarrow> store \<Rightarrow> app_batch" where
  "event_batch l s = \<lparr>fiberLanes = l, component = s, updateQueue = [], newObject = False\<rparr>"

definition app_changed :: "app_batch \<Rightarrow> store \<Rightarrow> store \<Rightarrow> bool" where
  "app_changed b s s1 =
     (newObject b \<or> isBotSpeaking s1 \<noteq> isBotSpeaking s
      \<or> streamingUserText s1 \<noteq> streamingUserText s \<or> isUserSpeaking s1 \<noteq> isUserSpeaking s)"

definition layout_changed :: "store \<Rightarrow> store \<Rightarrow> bool" where
  "layout_changed s1 s2 =
     (historyObject s2 \<noteq> historyObject s1 \<or> conversationState s2 \<noteq> conversationState s1)"

definition lanes_after :: "store \<Rightarrow> app_batch \<Rightarrow> bool" where
  "lanes_after s b =
     (if updateQueue b = [] then fiberLanes b
      else if layout_changed (render_app b) (effect_pass s (render_app b)) then False
      else app_changed b s (render_app b))"

definition dispatch :: "bool \<Rightarrow> (app_batch \<Rightarrow> app_batch) \<Rightarrow> store \<Rightarrow> store" where
  "dispatch l handler s = settle s (render_app (handler (event_batch l s)))"

definition dispatch_lanes :: "bool \<Rightarrow> (app_batch \<Rightarrow> app_batch) \<Rightarrow> store \<Rightarrow> bool" where
  "dispatch_lanes l handler s = lanes_after s (handler (event_batch l s))"

definition advance :: "nat \<Rightarrow> store \<Rightarrow> store" where
  "advance ms s = s\<lparr>now := now s + ms\<rparr>"

text \<open>
  Events. \<open>VisualizerFrame\<close> is an animation frame of a running analysis loop, whose
  callback \<^verbatim>\<open>animate\<close> ends in \<^verbatim>\<open>setMicBars(bars)\<close> or \<^verbatim>\<open>setBotBars(bars)\<close>: the layout
  renders on its own. \<open>Elapse ms\<close> is the passing of time between the other events: a
  pending timeout either keeps counting or fires its callback at its deadline.

  \<open>step_from l s e\<close> is the store after the event \<open>e\<close>, and \<open>lanes_from l s e\<close> the flag
  \<open>fiberLanes\<close> after it, when the event finds the store \<open>s\<close> and the flag \<open>l\<close>. A change
  of \<^verbatim>\<open>client.state\<close> and an animation frame render the layout without an update of
  \<^verbatim>\<open>App\<close>.
\<close>

datatype event =
    ServerMessage json
  | UserTranscript "string option" "bool option"
  | BotTtsText "string option"
  | BotStartedSpeaking
  | BotStoppedSpeaking
  | UserStartedSpeaking
  | Connected
  | Disconnected
  | TransportStateChanged string
  | VisualizerFrame
  | Elapse nat

fun step_from :: "bool \<Rightarrow> store \<Rightarrow> event \<Rightarrow> store" where
  "step_from l s (ServerMessage message) = dispatch l (handleServerMessage message) s"
| "step_from l s (UserTranscript text_field final_field) =
     dispatch l (handleUserTranscript text_field final_field) s"
| "step_from l s (BotTtsText text_field) = dispatch l (handleBotTtsText text_field) s"
| "step_from l s BotStartedSpeaking = dispatch l handleBotStartedSpeaking s"
| "step_from l s BotStoppedSpeaking = dispatch l handleBotStoppedSpeaking s"
| "step_from l s UserStartedSpeaking = dispatch l handleUserStartedSpeaking s"
| "step_from l s Connected = dispatch l handleConnected s"
| "step_from l s Disconnected = dispatch l handleDisconnected s"
| "step_from l s (TransportStateChanged st) = settle s (s\<lparr>transportState := st\<rparr>)"
| "step_from l s VisualizerFrame = s"
| "step_from l s (Elapse ms) =
     (case safetyTimeout s of
        None \<Rightarrow> advance ms s
      | Some d \<Rightarrow>
          if ms < d then advance ms (s\<lparr>safetyTimeout := Some (d - ms)\<rparr>)
          else advance (ms - d)
                 (dispatch l safetyTimeoutCallback (advance d (s\<lparr>safetyTimeout := None\<rparr>))))"

fun lanes_from :: "bool \<Rightarrow> store \<Rightarrow> event \<Rightarrow> bool" where
  "lanes_from l s (ServerMessage message) = dispatch_lanes l (handleServerMessage message) s"
| "lanes_from l s (UserTranscript text_field final_field) =
     dispatch_lanes l (handleUserTranscript text_field final_field) s"
| "lanes_from l s (BotTtsText text_field) = dispatch_lanes l (handleBotTtsText text_field) s"
| "lanes_from l s BotStartedSpeaking = dispatch_lanes l handleBotStartedSpeaking s"
| "lanes_from l s BotStoppedSpeaking = dispatch_lanes l handleBotStoppedSpeaking s"
| "lanes_from l s UserStartedSpeaking = dispatch_lanes l handleUserStartedSpeaking s"
| "lanes_from l s Connected = dispatch_lanes l handleConnected s"
| "lanes_from l s Disconnected = dispatch_lanes l handleDisconnected s"
| "lanes_from l s (TransportStateChanged st) = (if transportState s = st then l else False)"
| "lanes_from l s VisualizerFrame = False"
| "lanes_from l s (Elapse ms) =
     (case safetyTimeout s of
        None \<Rightarrow> l
      | Some d \<Rightarrow>
          if ms < d then l
          else dispatch_lanes l safetyTimeoutCallback (advance d (s\<lparr>safetyTimeout := None\<rparr>)))"

text \<open>
  A run threads the flag through its events. \<open>step\<close> and \<open>run\<close> start without lanes, as
  \<^verbatim>\<open>App\<close> is when it has mounted.
\<close>

fun run_from :: "bool \<Rightarrow> store \<Rightarrow> event list \<Rightarrow> store" where
  "run_from l s [] = s"
| "run_from l s (e # es) = run_from (lanes_from l s e) (step_from l s e) es"

definition step :: "store \<Rightarrow> event \<Rightarrow> store" where
  "step s e = step_from False s e"

definition run :: "store \<Rightarrow> event list \<Rightarrow> store" where
  "run s es = run_from False s es"

definition initial_store :: store where
  "initial_store =
     \<lparr> courseState =
         \<lparr> all_topics = JArr [], discussed_topics = JArr [], responses = JObj [],
           remaining_topics = JArr [], current_topics = JArr [],
           current_node = JStr ''initial'', progress = JStr ''0/3'' \<rparr>,
       transcripts_user = [], transcripts_bot = [],
       isBotSpeaking = False, streamingUserText = [], isUserSpeaking = False,
       streamingUserTextRef = [], safetyTimeout = None,
       transcriptHistory = [], historyObject = 0, conversationState = Idle,
       prevIsUserSpeaking = False, lastProcessedTts = [],
       transportState = ''disconnected'', now = 0 \<rparr>"

text \<open>
  Auxiliary notions for the proofs: the updates an effect pass can request, the refs it
  can assign, and the properties of the store that such a pass keeps.
\<close>

definition preserves :: "(store \<Rightarrow> bool) \<Rightarrow> update \<Rightarrow> bool" where
  "preserves P u = (\<forall>s. P s \<longrightarrow> P (u s))"

definition effect_update :: "update \<Rightarrow> bool" where
  "effect_update u =
     ((\<exists>m. u = (\<lambda>s. s\<lparr>conversationState := m\<rparr>))
      \<or> (\<exists>t. u = appendUser t)
      \<or> (\<exists>t. u = appendBot t)
      \<or> u = (\<lambda>s. s\<lparr>transcriptHistory := [], historyObject := Suc (historyObject s)\<rparr>))"

definition erase_refs :: "store \<Rightarrow> store" where
  "erase_refs s = s\<lparr>prevIsUserSpeaking := False, lastProcessedTts := [], safetyTimeout := None\<rparr>"

definition ref_frame :: "store \<Rightarrow> store \<Rightarrow> bool" where
  "ref_frame s s' = (erase_refs s' = erase_refs s)"

definition extends :: "act \<Rightarrow> act \<Rightarrow> bool" where
  "extends a a' =
     (ref_frame (fst a) (fst a') \<and> (\<exists>q. snd a' = snd a @ q \<and> list_all effect_update q))"

definition effects_keep :: "(store \<Rightarrow> bool) \<Rightarrow> bool" where
  "effects_keep P =
     ((\<forall>u. effect_update u \<longrightarrow> preserves P u)
      \<and> (\<forall>s p l t. P s \<longrightarrow>
            P (s\<lparr>prevIsUserSpeaking := p, lastProcessedTts := l, safetyTimeout := t\<rparr>)))"

text \<open>No two consecutive entries of the same speaker with the same text.\<close>

fun no_repeat :: "TranscriptMessage list \<Rightarrow> bool" where
  "no_repeat (a # b # r) =
     ((speaker a \<noteq> speaker b \<or> msg_text a \<noteq> msg_text b) \<and> no_repeat (b # r))"
| "no_repeat [a] = True"
| "no_repeat [] = True"

text \<open>
  The topic sets of a course state, the payloads that respect the inclusions, and the
  table of the fields of a snapshot with their defaults.
\<close>

definition arr_elems :: "json \<Rightarrow> json set" where
  "arr_elems j = (case j of JArr xs \<Rightarrow> set xs | _ \<Rightarrow> {})"

definition obj_keys :: "json \<Rightarrow> string set" where
  "obj_keys j = (case j of JObj kvs \<Rightarrow> fst ` set kvs | _ \<Rightarrow> {})"

definition topics_ok :: "CourseState \<Rightarrow> bool" where
  "topics_ok c =
     (arr_elems (discussed_topics c) \<subseteq> arr_elems (all_topics c)
      \<and> JStr ` obj_keys (responses c) \<subseteq> arr_elems (all_topics c))"

definition is_state_update :: "json \<Rightarrow> bool" where
  "is_state_update message =
     (get_prop (message_data message) ''type'' = Some (JStr ''conversation_state_update''))"

fun consistent_event :: "event \<Rightarrow> bool" where
  "consistent_event (ServerMessage message) =
     (\<not> is_state_update message \<or> topics_ok (course_of_payload (message_data message)))"
| "consistent_event e = True"

definition course_fields :: "(string \<times> json \<times> (CourseState \<Rightarrow> json)) list" where
  "course_fields =
     [ (''all_topics'', JArr [], all_topics),
       (''discussed_topics'', JArr [], discussed_topics),
       (''responses'', JObj [], responses),
       (''remaining_topics'', JArr [], remaining_topics),
       (''current_topics'', JArr [], current_topics),
       (''current_node'', JStr ''initial'', current_node),
       (''progress'', JStr ''0/3'', progress) ]"

definition app_deps :: "store \<Rightarrow> bool \<times> string \<times> string \<times> string" where
  "app_deps s = (isUserSpeaking s, transcripts_user s, transcripts_bot s, transportState s)"

definition clears_thinking :: "store \<Rightarrow> store \<Rightarrow> bool" where
  "clears_thinking old cur =
     ((historyObject old \<noteq> historyObject cur \<or> conversationState old \<noteq> conversationState cur)
      \<and> conversationState cur = Thinking
      \<and> transcriptHistory cur \<noteq> []
      \<and> speaker (last (transcriptHistory cur)) = Bot)"

definition app_fields ::
  "store \<Rightarrow> CourseState \<times> string \<times> string \<times> bool \<times> string \<times> bool \<times> string \<times> string \<times> nat" where
  "app_fields s =
     (courseState s, transcripts_user s, transcripts_bot s, isBotSpeaking s,
      streamingUserText s, isUserSpeaking s, streamingUserTextRef s, transportState s, now s)"

subsection \<open>Properties\<close>

lemmas handler_defs = handleServerMessage_def handleUserTranscript_def handleBotTtsText_def
  handleBotStartedSpeaking_def handleBotStoppedSpeaking_def handleUserStartedSpeaking_def
  handleConnected_def handleDisconnected_def safetyTimeoutCallback_def

lemmas effect_defs = safetyTimeoutEffect_def safetyTimeoutCleanup_def speakingEdgeEffect_def
  clearThinkingEffect_def userHistoryEffect_def botHistoryEffect_def resetHistoryEffect_def

lemmas setter_defs = setValue_def setObject_def assignRef_def setCourseState_def
  setTranscripts_def setIsBotSpeaking_def setStreamingUserText_def setIsUserSpeaking_def

lemmas react_defs = setState_def mutate_def render_def useEffect_def run_effects_def
  effect_pass_def settle_def render_app_def event_batch_def app_changed_def layout_changed_def
  lanes_after_def dispatch_def dispatch_lanes_def advance_def step_def run_def

text \<open>
  An effect pass only appends updates of the four kinds of \<open>effect_update\<close> to the queue
  and only assigns the two refs and the timer; so a property of the store that those
  keep is kept by a pass, by \<open>settle\<close> and by \<open>dispatch\<close>.
\<close>

lemma ref_frame_refl: "ref_frame s s"
  by (simp add: ref_frame_def)

lemma ref_frame_trans: "ref_frame s s' \<Longrightarrow> ref_frame s' s'' \<Longrightarrow> ref_frame s s''"
  by (simp add: ref_frame_def)

lemma ref_frameD:
  "ref_frame s s' \<Longrightarrow>
   s' = s\<lparr>prevIsUserSpeaking := prevIsUserSpeaking s', lastProcessedTts := lastProcessedTts s',
          safetyTimeout := safetyTimeout s'\<rparr>"
  by (cases s, cases s') (simp add: ref_frame_def erase_refs_def)

lemma extends_refl: "extends a a"
  by (simp add: extends_def ref_frame_refl)

lemma extends_trans: "extends a b \<Longrightarrow> extends b c \<Longrightarrow> extends a c"
  unfolding extends_def by (auto intro: ref_frame_trans)

lemma extends_setState: "effect_update u \<Longrightarrow> extends a (setState u a)"
  by (simp add: extends_def setState_def ref_frame_refl)

lemma extends_prev: "extends a (mutate (\<lambda>s. s\<lparr>prevIsUserSpeaking := p\<rparr>) a)"
  by (simp add: extends_def mutate_def ref_frame_def erase_refs_def)

lemma extends_tts: "extends a (mutate (\<lambda>s. s\<lparr>lastProcessedTts := l\<rparr>) a)"
  by (simp add: extends_def mutate_def ref_frame_def erase_refs_def)

lemma extends_timer: "extends a (mutate (\<lambda>s. s\<lparr>safetyTimeout := t\<rparr>) a)"
  by (simp add: extends_def mutate_def ref_frame_def erase_refs_def)

lemma effect_update_mode: "effect_update (\<lambda>s. s\<lparr>conversationState := m\<rparr>)"
  unfolding effect_update_def by blast

lemma effect_update_user: "effect_update (appendUser t)"
  unfolding effect_update_def by blast

lemma effect_update_bot: "effect_update (appendBot t)"
  unfolding effect_update_def by blast

lemma effect_update_reset:
  "effect_update (\<lambda>s. s\<lparr>transcriptHistory := [], historyObject := Suc (historyObject s)\<rparr>)"
  unfolding effect_update_def by blast

lemma extends_useEffect: "(\<And>a. extends a (f a)) \<Longrightarrow> extends a (useEffect c f a)"
  by (simp add: useEffect_def extends_refl)

lemma extends_cleanup: "extends a (safetyTimeoutCleanup old a)"
  by (simp add: safetyTimeoutCleanup_def extends_refl extends_timer)

lemma extends_timeout: "extends a (safetyTimeoutEffect cur a)"
  by (simp add: safetyTimeoutEffect_def extends_refl extends_timer)

lemma extends_edge: "extends a (speakingEdgeEffect cur a)"
  unfolding speakingEdgeEffect_def Let_def
  by (intro extends_trans[OF _ extends_prev])
     (simp add: extends_refl extends_setState effect_update_mode)

lemma extends_clear: "extends a (clearThinkingEffect cur a)"
  by (simp add: clearThinkingEffect_def extends_refl extends_setState effect_update_mode)

lemma extends_user: "extends a (userHistoryEffect cur a)"
  by (simp add: userHistoryEffect_def extends_refl extends_setState effect_update_user)

lemma extends_botHistory: "extends a (botHistoryEffect cur a)"
  unfolding botHistoryEffect_def Let_def
  by (auto intro: extends_refl extends_trans[OF extends_tts extends_setState] effect_update_bot)

lemma extends_resetHistory: "extends a (resetHistoryEffect cur a)"
  unfolding resetHistoryEffect_def Let_def
  by (auto intro: extends_refl extends_trans[OF extends_setState extends_tts] effect_update_reset)

lemma extends_run_effects: "extends a (run_effects old cur a)"
  unfolding run_effects_def fold_simps id_def
  by (intro extends_trans[OF _ extends_useEffect] extends_useEffect
        extends_cleanup extends_timeout extends_edge extends_clear extends_user
        extends_botHistory extends_resetHistory)

lemma foldl_keeps:
  "list_all (preserves P) q \<Longrightarrow> P s \<Longrightarrow> P (foldl (\<lambda>s u. u s) s q)"
  by (induction q arbitrary: s) (auto simp: preserves_def)

lemma effect_pass_keeps:
  assumes "effects_keep P" and "P cur"
  shows "P (effect_pass old cur)"
proof -
  have "extends (cur, []) (run_effects old cur (cur, []))"
    by (rule extends_run_effects)
  then obtain q p l t where
      s: "fst (run_effects old cur (cur, [])) =
            cur\<lparr>prevIsUserSpeaking := p, lastProcessedTts := l, safetyTimeout := t\<rparr>"
    and q: "snd (run_effects old cur (cur, [])) = q" "list_all effect_update q"
    by (auto simp: extends_def dest: ref_frameD)
  have "list_all (preserves P) q"
    using q(2) assms(1) by (auto simp: effects_keep_def list_all_iff)
  moreover have "P (cur\<lparr>prevIsUserSpeaking := p, lastProcessedTts := l, safetyTimeout := t\<rparr>)"
    using assms by (simp add: effects_keep_def)
  ultimately show ?thesis
    unfolding effect_pass_def render_def s q(1) by (rule foldl_keeps)
qed

lemma effect_passes_keeps: "effects_keep P \<Longrightarrow> P cur \<Longrightarrow> P (effect_passes n old cur)"
  by (induction n arbitrary: old cur) (auto intro: effect_pass_keeps)

lemma dispatch_keeps:
  "effects_keep P \<Longrightarrow> P (render_app (handler (event_batch l s))) \<Longrightarrow> P (dispatch l handler s)"
  by (simp add: dispatch_def settle_def effect_passes_keeps del: effect_passes.simps)

lemmas eval_defs = initial_store_def react_defs setter_defs handler_defs effect_defs appendUser_def
  appendBot_def trim_def js_space_def message_data_def course_of_payload_def or_default_def

text \<open>A pass after a render that changed no dependency runs no effect.\<close>

lemma effect_pass_same: "effect_pass s s = s"
  by (simp add: effect_pass_def run_effects_def useEffect_def render_def)

lemma effect_passes_same: "effect_passes n s s = s"
  by (induction n) (simp_all add: effect_pass_same)

lemma settle_quiet:
  assumes "isUserSpeaking cur = isUserSpeaking old"
    and "historyObject cur = historyObject old"
    and "conversationState cur = conversationState old"
    and "transcripts_user cur = transcripts_user old"
    and "transcripts_bot cur = transcripts_bot old"
    and "transportState cur = transportState old"
  shows "settle old cur = cur"
proof -
  have "effect_pass old cur = cur"
    using assms by (simp add: effect_pass_def run_effects_def useEffect_def render_def)
  then show ?thesis
    by (simp add: settle_def effect_pass_same)
qed

lemma dispatch_id: "dispatch l (\<lambda>a. a) s = s"
  by (simp add: dispatch_def render_app_def event_batch_def settle_quiet)

text \<open>
  What a callback of \<^verbatim>\<open>App\<close> has rendered. Only the safety timeout depends on the flag:
  its updater reads the ref, which the callback empties before the render.
\<close>

lemma render_handleServerMessage:
  "render_app (handleServerMessage message (event_batch l s)) =
     (if is_state_update message
      then s\<lparr>courseState := course_of_payload (message_data message)\<rparr>
      else s)"
  by (cases s; cases l)
     (simp_all add: handleServerMessage_def is_state_update_def setter_defs render_app_def
       event_batch_def)

lemma render_handleUserTranscript:
  "render_app (handleUserTranscript tf ff (event_batch l s)) =
     (case tf of
        None \<Rightarrow> s
      | Some t \<Rightarrow>
          if t = [] then s
          else if ff = Some False
          then s\<lparr>streamingUserText := t, streamingUserTextRef := t, isUserSpeaking := True\<rparr>
          else s\<lparr>transcripts_user := t, streamingUserText := [], streamingUserTextRef := [],
                 isUserSpeaking := False\<rparr>)"
  by (cases s; cases l)
     (auto simp: handleUserTranscript_def setter_defs render_app_def event_batch_def Let_def
       split: option.splits)

lemma render_handleBotTtsText:
  "render_app (handleBotTtsText tf (event_batch l s)) =
     (case tf of
        None \<Rightarrow> s
      | Some t \<Rightarrow> if t \<noteq> [] \<and> trim t \<noteq> [] then s\<lparr>transcripts_bot := t\<rparr> else s)"
  by (cases s; cases l)
     (auto simp: handleBotTtsText_def setter_defs render_app_def event_batch_def
       split: option.splits)

lemma render_speaking_flags:
  "render_app (handleBotStartedSpeaking (event_batch l s)) = s\<lparr>isBotSpeaking := True\<rparr>"
  "render_app (handleBotStoppedSpeaking (event_batch l s)) = s\<lparr>isBotSpeaking := False\<rparr>"
  "render_app (handleUserStartedSpeaking (event_batch l s)) = s\<lparr>isUserSpeaking := True\<rparr>"
  by (cases s; cases l;
      auto simp: handleBotStartedSpeaking_def handleBotStoppedSpeaking_def
        handleUserStartedSpeaking_def setter_defs render_app_def event_batch_def)+

lemma render_handleConnected:
  "render_app (handleConnected (event_batch l s)) =
     s\<lparr>transcripts_user := [], transcripts_bot := [], streamingUserText := [],
       isUserSpeaking := False, isBotSpeaking := False\<rparr>"
  by (cases s; cases l)
     (auto simp: handleConnected_def setter_defs render_app_def event_batch_def Let_def)

lemma render_handleDisconnected:
  "render_app (handleDisconnected (event_batch l s)) =
     s\<lparr>streamingUserText := [], isUserSpeaking := False, isBotSpeaking := False\<rparr>"
  by (cases s; cases l)
     (auto simp: handleDisconnected_def setter_defs render_app_def event_batch_def Let_def)

lemma render_safetyTimeoutCallback:
  "render_app (safetyTimeoutCallback (event_batch l s)) =
     (if streamingUserTextRef s \<noteq> []
      then s\<lparr>transcripts_user := (if l then [] else streamingUserTextRef s),
             streamingUserText := [], streamingUserTextRef := [], isUserSpeaking := False\<rparr>
      else s\<lparr>streamingUserText := [], streamingUserTextRef := [], isUserSpeaking := False\<rparr>)"
  by (cases s; cases l)
     (auto simp: safetyTimeoutCallback_def setter_defs render_app_def event_batch_def Let_def)

lemmas render_handlers = render_handleServerMessage render_handleUserTranscript
  render_handleBotTtsText render_speaking_flags render_handleConnected
  render_handleDisconnected render_safetyTimeoutCallback

lemma step_ServerMessage:
  "step s (ServerMessage message) =
     (if is_state_update message
      then s\<lparr>courseState := course_of_payload (message_data message)\<rparr>
      else s)"
  by (simp add: step_def dispatch_def render_handleServerMessage settle_quiet)

text \<open>The history invariant: both updater functions keep it, and nothing else appends.\<close>

lemma no_repeat_snoc:
  "no_repeat (h @ [m]) =
     (no_repeat h \<and> (h = [] \<or> speaker (last h) \<noteq> speaker m \<or> msg_text (last h) \<noteq> msg_text m))"
  by (induction h rule: no_repeat.induct) auto

lemma find_rev_last:
  "h \<noteq> [] \<Longrightarrow> P (last h) \<Longrightarrow> List.find P (rev h) = Some (last h)"
  by (cases h rule: rev_cases) auto

lemma find_rev_None_last:
  "List.find P (rev h) = None \<Longrightarrow> h \<noteq> [] \<Longrightarrow> \<not> P (last h)"
  by (cases h rule: rev_cases) auto

lemma appendUser_no_repeat: "preserves (\<lambda>s. no_repeat (transcriptHistory s)) (appendUser t)"
proof (unfold preserves_def, intro allI impI)
  fix s :: store assume inv: "no_repeat (transcriptHistory s)"
  show "no_repeat (transcriptHistory (appendUser t s))"
  proof (cases "List.find (\<lambda>m. speaker m = User) (rev (transcriptHistory s))")
    case None
    then have "transcriptHistory s \<noteq> [] \<Longrightarrow> speaker (last (transcriptHistory s)) \<noteq> User"
      by (rule find_rev_None_last)
    then show ?thesis
      using None inv by (auto simp: appendUser_def no_repeat_snoc)
  next
    case (Some m)
    have "msg_text (last (transcriptHistory s)) = msg_text m"
      if "transcriptHistory s \<noteq> []" "speaker (last (transcriptHistory s)) = User"
      using find_rev_last[of "transcriptHistory s" "\<lambda>m. speaker m = User"] that Some by simp
    then show ?thesis
      using Some inv by (auto simp: appendUser_def no_repeat_snoc)
  qed
qed

lemma appendBot_no_repeat: "preserves (\<lambda>s. no_repeat (transcriptHistory s)) (appendBot t)"
proof (unfold preserves_def, intro allI impI)
  fix s :: store assume inv: "no_repeat (transcriptHistory s)"
  show "no_repeat (transcriptHistory (appendBot t s))"
  proof (cases "List.find (\<lambda>m. speaker m = Bot) (rev (transcriptHistory s))")
    case None
    then have "transcriptHistory s \<noteq> [] \<Longrightarrow> speaker (last (transcriptHistory s)) \<noteq> Bot"
      by (rule find_rev_None_last)
    then show ?thesis
      using None inv by (auto simp: appendBot_def no_repeat_snoc)
  next
    case (Some m)
    have "msg_text (last (transcriptHistory s)) = msg_text m"
      if "transcriptHistory s \<noteq> []" "speaker (last (transcriptHistory s)) = Bot"
      using find_rev_last[of "transcriptHistory s" "\<lambda>m. speaker m = Bot"] that Some by simp
    then show ?thesis
      using Some inv by (auto simp: appendBot_def no_repeat_snoc)
  qed
qed

lemma effects_keep_no_repeat: "effects_keep (\<lambda>s. no_repeat (transcriptHistory s))"
  using appendUser_no_repeat appendBot_no_repeat
  by (auto simp: effects_keep_def effect_update_def preserves_def)

lemma handlers_keep_history:
  "transcriptHistory (render_app (handleServerMessage message (event_batch l s))) = transcriptHistory s"
  "transcriptHistory (render_app (handleUserTranscript tf ff (event_batch l s))) = transcriptHistory s"
  "transcriptHistory (render_app (handleBotTtsText tf (event_batch l s))) = transcriptHistory s"
  "transcriptHistory (render_app (handleBotStartedSpeaking (event_batch l s))) = transcriptHistory s"
  "transcriptHistory (render_app (handleBotStoppedSpeaking (event_batch l s))) = transcriptHistory s"
  "transcriptHistory (render_app (handleUserStartedSpeaking (event_batch l s))) = transcriptHistory s"
  "transcriptHistory (render_app (handleConnected (event_batch l s))) = transcriptHistory s"
  "transcriptHistory (render_app (handleDisconnected (event_batch l s))) = transcriptHistory s"
  "transcriptHistory (render_app (safetyTimeoutCallback (event_batch l s))) = transcriptHistory s"
  by (simp_all add: render_handlers split: option.splits)

lemma step_from_no_repeat:
  assumes "no_repeat (transcriptHistory s)"
  shows "no_repeat (transcriptHistory (step_from l s e))"
proof -
  let ?P = "\<lambda>s. no_repeat (transcriptHistory s)"
  have d: "?P (dispatch l h s')"
    if "transcriptHistory (render_app (h (event_batch l s'))) = transcriptHistory s'" "?P s'"
    for h s'
    using that by (intro dispatch_keeps[of ?P, OF effects_keep_no_repeat]) simp
  show ?thesis
  proof (cases e)
    case (Elapse ms)
    have "?P (dispatch l safetyTimeoutCallback (advance d' (s\<lparr>safetyTimeout := None\<rparr>)))" for d'
      using assms by (intro d handlers_keep_history) (simp add: advance_def)
    then show ?thesis
      using assms Elapse by (simp add: advance_def split: option.splits)
  next
    case (TransportStateChanged st)
    have "?P (settle s (s\<lparr>transportState := st\<rparr>))"
      unfolding settle_def using assms
      by (intro effect_passes_keeps[of ?P, OF effects_keep_no_repeat]) simp
    then show ?thesis
      using TransportStateChanged by simp
  qed (use assms in \<open>simp_all add: d handlers_keep_history\<close>)
qed

lemma run_from_no_repeat:
  "no_repeat (transcriptHistory s) \<Longrightarrow> no_repeat (transcriptHistory (run_from l s es))"
  by (induction es arbitrary: l s) (simp_all add: step_from_no_repeat)

lemma run_no_repeat:
  "no_repeat (transcriptHistory s) \<Longrightarrow> no_repeat (transcriptHistory (run s es))"
  by (simp add: run_def run_from_no_repeat)

text \<open>
  Effects do not change what \<^verbatim>\<open>App\<close> owns. Hence, after the first pass, only the effect
  that clears \<open>Thinking\<close> can run, and the history is the one the first pass left.
\<close>

lemma effects_keep_app_deps: "effects_keep (\<lambda>s. app_deps s = v)"
  by (auto simp: effects_keep_def effect_update_def preserves_def app_deps_def
      appendUser_def appendBot_def Let_def split: option.splits if_splits)

lemma effect_pass_app_deps: "app_deps (effect_pass old cur) = app_deps cur"
  by (rule effect_pass_keeps[OF effects_keep_app_deps]) simp

lemma effect_pass_history_quiet:
  assumes "app_deps cur = app_deps old"
  shows "transcriptHistory (effect_pass old cur) = transcriptHistory cur"
  using assms
  by (simp add: app_deps_def effect_pass_def run_effects_def useEffect_def render_def
      clearThinkingEffect_def setState_def)

lemma settle_history: "transcriptHistory (settle old s1) = transcriptHistory (effect_pass old s1)"
  by (simp add: settle_def effect_pass_history_quiet effect_pass_app_deps)

lemma duplicate_user_not_appended:
  assumes "List.find (\<lambda>m. speaker m = User) (rev (transcriptHistory s)) = Some m"
    and "msg_text m = t"
  shows "transcriptHistory (step s (UserTranscript (Some t) ff)) = transcriptHistory s"
  using assms
  by (simp add: step_def dispatch_def settle_history render_handleUserTranscript)
     (simp add: effect_pass_def run_effects_def useEffect_def render_def
       setState_def mutate_def effect_defs appendUser_def Let_def)

lemma duplicate_bot_not_appended:
  assumes "List.find (\<lambda>m. speaker m = Bot) (rev (transcriptHistory s)) = Some m"
    and "msg_text m = t"
  shows "transcriptHistory (step s (BotTtsText (Some t))) = transcriptHistory s"
  using assms
  by (simp add: step_def dispatch_def settle_history render_handleBotTtsText)
     (simp add: effect_pass_def run_effects_def useEffect_def render_def
       setState_def mutate_def effect_defs appendBot_def Let_def)

lemma effect_pass_quiet:
  assumes "app_deps cur = app_deps old"
  shows "effect_pass old cur =
           (if clears_thinking old cur then cur\<lparr>conversationState := Idle\<rparr> else cur)"
  using assms
  by (simp add: app_deps_def effect_pass_def run_effects_def useEffect_def render_def
      clearThinkingEffect_def setState_def clears_thinking_def)

lemma settle_unfold:
  "settle old s1 =
     (if clears_thinking s1 (effect_pass old s1)
      then (effect_pass old s1)\<lparr>conversationState := Idle\<rparr>
      else effect_pass old s1)"
proof -
  define s2 where "s2 = effect_pass old s1"
  have d2: "app_deps s2 = app_deps s1"
    by (simp add: s2_def effect_pass_app_deps)
  have p2: "effect_pass s1 s2 = (if clears_thinking s1 s2 then s2\<lparr>conversationState := Idle\<rparr> else s2)"
    using d2 by (rule effect_pass_quiet)
  have p3: "effect_pass s2 (s2\<lparr>conversationState := Idle\<rparr>) = s2\<lparr>conversationState := Idle\<rparr>"
    by (subst effect_pass_quiet) (simp_all add: app_deps_def clears_thinking_def)
  have "settle old s1 = effect_pass s2 (effect_pass s1 s2)"
    by (simp add: settle_def s2_def)
  also have "\<dots> = (if clears_thinking s1 s2 then s2\<lparr>conversationState := Idle\<rparr> else s2)"
    by (simp add: p2 p3 effect_pass_same)
  finally show ?thesis
    by (simp add: s2_def)
qed

text \<open>
  After the three passes of \<open>settle\<close> a fourth pass changes nothing: the second pass can
  only clear \<open>Thinking\<close>, and the third finds nothing to do.
\<close>

lemma settle_quiescent:
  "effect_pass (effect_pass s1 (effect_pass old s1)) (settle old s1) = settle old s1"
proof -
  define s2 where "s2 = effect_pass old s1"
  have d2: "app_deps s2 = app_deps s1"
    by (simp add: s2_def effect_pass_app_deps)
  have p2: "effect_pass s1 s2 = (if clears_thinking s1 s2 then s2\<lparr>conversationState := Idle\<rparr> else s2)"
    using d2 by (rule effect_pass_quiet)
  have "settle old s1 = (if clears_thinking s1 s2 then s2\<lparr>conversationState := Idle\<rparr> else s2)"
    by (simp add: settle_unfold s2_def)
  then have st: "settle old s1 = effect_pass s1 s2"
    by (simp add: p2)
  show ?thesis
    unfolding st s2_def[symmetric] by (simp add: effect_pass_same)
qed

lemma step_TransportStateChanged:
  "step s (TransportStateChanged st) =
     (if transportState s \<noteq> st \<and> st = ''ready''
      then s\<lparr>transportState := st, transcriptHistory := [],
             historyObject := Suc (historyObject s), lastProcessedTts := []\<rparr>
      else s\<lparr>transportState := st\<rparr>)"
proof -
  have p1: "effect_pass s (s\<lparr>transportState := st\<rparr>) =
     (if transportState s \<noteq> st \<and> st = ''ready''
      then s\<lparr>transportState := st, transcriptHistory := [],
             historyObject := Suc (historyObject s), lastProcessedTts := []\<rparr>
      else s\<lparr>transportState := st\<rparr>)"
    by (simp add: effect_pass_def run_effects_def useEffect_def render_def
        setState_def mutate_def resetHistoryEffect_def Let_def)
  have eq: "step s (TransportStateChanged st) = settle s (s\<lparr>transportState := st\<rparr>)"
    by (simp add: step_def)
  show ?thesis
    unfolding eq settle_unfold p1 by (simp add: clears_thinking_def)
qed

lemma hello_bye_hello:
  "map msg_text (transcriptHistory (run initial_store
      [BotTtsText (Some ''hello''), BotTtsText (Some ''bye''), BotTtsText (Some ''hello'')]))
   = [''hello'', ''bye'', ''hello'']"
  by (simp add: eval_defs)

lemma hello_hello:
  "map msg_text (transcriptHistory (run initial_store
      [BotTtsText (Some ''hello''), BotTtsText (Some ''hello'')])) = [''hello'']"
  by (simp add: eval_defs)

text \<open>
  The transitions of the interaction mode, for a store whose ref \<^verbatim>\<open>prevIsUserSpeaking\<close>
  agrees with the flag (as it does between events). A rising edge gives listening; an
  agent entry appended while thinking gives idle; a falling edge by a final transcript
  gives thinking, unless the history then ends with an agent entry, in which case the
  mode is idle at once.
\<close>

lemma rising_edge_listening:
  assumes "\<not> isUserSpeaking s" and "\<not> prevIsUserSpeaking s"
  shows "conversationState (step s UserStartedSpeaking) = Listening"
    and "t \<noteq> [] \<Longrightarrow> conversationState (step s (UserTranscript (Some t) (Some False))) = Listening"
proof -
  have p: "conversationState (effect_pass s s1) = Listening"
    if "isUserSpeaking s1" "conversationState s1 = conversationState s"
      "historyObject s1 = historyObject s" "transcripts_bot s1 = transcripts_bot s"
      "transportState s1 = transportState s" "prevIsUserSpeaking s1 = prevIsUserSpeaking s"
    for s1
    using assms that
    by (simp add: effect_pass_def run_effects_def useEffect_def render_def setState_def
        mutate_def effect_defs Let_def)
  have "conversationState (effect_pass s
      (render_app (handleUserStartedSpeaking (event_batch False s)))) = Listening"
    by (rule p) (simp_all add: render_handlers)
  then show "conversationState (step s UserStartedSpeaking) = Listening"
    by (simp add: step_def dispatch_def settle_unfold clears_thinking_def)
  have "conversationState (effect_pass s
      (render_app (handleUserTranscript (Some t) (Some False) (event_batch False s)))) = Listening"
    if "t \<noteq> []"
    using that by (intro p) (simp_all add: render_handlers)
  then show "conversationState (step s (UserTranscript (Some t) (Some False))) = Listening"
    if "t \<noteq> []"
    using that by (simp add: step_def dispatch_def settle_unfold clears_thinking_def)
qed

lemma appended_agent_entry_clears_thinking:
  assumes "conversationState s = Thinking"
    and "transcriptHistory (step s (BotTtsText tf)) \<noteq> transcriptHistory s"
  shows "conversationState (step s (BotTtsText tf)) = Idle"
proof -
  define s1 where "s1 = render_app (handleBotTtsText tf (event_batch False s))"
  have st: "step s (BotTtsText tf) = settle s s1"
    by (simp add: step_def dispatch_def s1_def)
  have h1: "transcriptHistory (effect_pass s s1) \<noteq> transcriptHistory s"
    using assms(2) unfolding st by (simp add: settle_history)
  have quiet: "effect_pass s s1 = s1" if "transcripts_bot s1 = transcripts_bot s"
    using that
    by (cases tf)
       (simp_all add: s1_def render_handleBotTtsText effect_pass_def
         run_effects_def useEffect_def render_def)
  have same_hist: "transcriptHistory s1 = transcriptHistory s"
    by (cases tf) (simp_all add: s1_def render_handleBotTtsText)
  from h1 quiet same_hist have changed: "transcripts_bot s1 \<noteq> transcripts_bot s"
    by auto
  then obtain t where t: "tf = Some t" "s1 = s\<lparr>transcripts_bot := t\<rparr>"
    by (cases tf) (auto simp: s1_def render_handleBotTtsText split: if_splits)
  have pass: "effect_pass s s1 = render (botHistoryEffect s1 (s1, []))"
    using changed
    by (simp add: t(2) effect_pass_def run_effects_def useEffect_def)
  have fired: "effect_pass s s1 = appendBot t (s1\<lparr>lastProcessedTts := t\<rparr>)"
  proof (rule ccontr)
    assume "effect_pass s s1 \<noteq> appendBot t (s1\<lparr>lastProcessedTts := t\<rparr>)"
    then have "effect_pass s s1 = s1"
      unfolding pass
      by (simp add: t(2) botHistoryEffect_def setState_def mutate_def render_def Let_def
          split: if_splits)
    then show False
      using h1 same_hist by simp
  qed
  have appended: "transcriptHistory (effect_pass s s1) =
      transcriptHistory s @ [\<lparr>speaker = Bot, msg_text = t, timestamp = now s\<rparr>]"
    and obj: "historyObject (effect_pass s s1) = Suc (historyObject s)"
    and mode: "conversationState (effect_pass s s1) = Thinking"
    using h1 assms(1) unfolding fired
    by (auto simp: t(2) appendBot_def Let_def split: option.splits if_splits)
  have "clears_thinking s1 (effect_pass s s1)"
    by (simp add: clears_thinking_def appended obj mode) (simp add: t(2))
  then show ?thesis
    unfolding st by (simp add: settle_unfold)
qed

lemma falling_edge_mode:
  assumes "isUserSpeaking s" and "prevIsUserSpeaking s" and "conversationState s = Listening"
    and "t \<noteq> []" and "ff \<noteq> Some False"
  shows "conversationState (step s (UserTranscript (Some t) ff)) =
           (if transcriptHistory (step s (UserTranscript (Some t) ff)) \<noteq> []
               \<and> speaker (last (transcriptHistory (step s (UserTranscript (Some t) ff)))) = Bot
            then Idle else Thinking)"
proof -
  define s1 where "s1 = s\<lparr>transcripts_user := t, streamingUserText := [],
      streamingUserTextRef := [], isUserSpeaking := False\<rparr>"
  define s2 where "s2 = effect_pass s s1"
  have r: "render_app (handleUserTranscript (Some t) ff (event_batch False s)) = s1"
    using assms(4,5) by (simp add: s1_def render_handleUserTranscript)
  have st: "step s (UserTranscript (Some t) ff) =
      (if clears_thinking s1 s2 then s2\<lparr>conversationState := Idle\<rparr> else s2)"
    by (simp add: step_def dispatch_def settle_unfold r s2_def)
  have m2: "conversationState s2 = Thinking"
    using assms(1,2)
    by (auto simp: s2_def s1_def effect_pass_def run_effects_def useEffect_def render_def
        setState_def mutate_def effect_defs appendUser_def Let_def split: option.splits)
  have c: "clears_thinking s1 s2 =
      (transcriptHistory s2 \<noteq> [] \<and> speaker (last (transcriptHistory s2)) = Bot)"
    using m2 assms(3) by (simp add: clears_thinking_def s1_def)
  show ?thesis
    unfolding st using m2 c by simp
qed

lemma effects_keep_app_fields: "effects_keep (\<lambda>s. app_fields s = v)"
  by (auto simp: effects_keep_def effect_update_def preserves_def app_fields_def
      appendUser_def appendBot_def Let_def split: option.splits if_splits)

lemma settle_app_fields: "app_fields (settle old s1) = app_fields s1"
  unfolding settle_def by (rule effect_passes_keeps[OF effects_keep_app_fields]) simp

lemma dispatch_app_fields:
  "app_fields (dispatch l h s) = app_fields (render_app (h (event_batch l s)))"
  by (rule dispatch_keeps[OF effects_keep_app_fields]) simp

lemma dispatch_courseState:
  "courseState (dispatch l h s) = courseState (render_app (h (event_batch l s)))"
  using dispatch_app_fields[of l h s] by (simp add: app_fields_def)

text \<open>Only a state update changes the course state.\<close>

lemma step_from_courseState:
  "courseState (step_from l s e) =
     (case e of
        ServerMessage message \<Rightarrow>
          if is_state_update message then course_of_payload (message_data message)
          else courseState s
      | _ \<Rightarrow> courseState s)"
proof (cases e)
  case (Elapse ms)
  then show ?thesis
    by (simp add: dispatch_courseState advance_def render_handlers split: option.splits)
next
  case (TransportStateChanged st)
  have "app_fields (settle s (s\<lparr>transportState := st\<rparr>)) = app_fields (s\<lparr>transportState := st\<rparr>)"
    by (rule settle_app_fields)
  then show ?thesis
    using TransportStateChanged by (simp add: app_fields_def)
qed (simp_all add: dispatch_courseState render_handlers split: option.splits)

lemma step_from_topics_ok:
  "topics_ok (courseState s) \<Longrightarrow> consistent_event e \<Longrightarrow>
   topics_ok (courseState (step_from l s e))"
  using step_from_courseState[of l s e] by (cases e) (auto simp del: step_from.simps)

lemma run_from_topics_ok:
  "topics_ok (courseState s) \<Longrightarrow> \<forall>e\<in>set es. consistent_event e \<Longrightarrow>
   topics_ok (courseState (run_from l s es))"
  by (induction es arbitrary: l s) (simp_all add: step_from_topics_ok del: step_from.simps)

lemma run_topics_ok:
  "topics_ok (courseState s) \<Longrightarrow> \<forall>e\<in>set es. consistent_event e \<Longrightarrow>
   topics_ok (courseState (run s es))"
  by (simp add: run_def run_from_topics_ok)

text \<open>For every event but the passing of time, the store after it is the same with and without lanes.\<close>

lemma step_from_lanes_irrelevant:
  assumes "\<forall>ms. e \<noteq> Elapse ms"
  shows "step_from l s e = step s e"
  using assms by (cases e) (simp_all add: step_def dispatch_def render_handlers)

text \<open>
  When the safety timeout fires, the speaking flag, the streaming text and the ref are
  cleared. The transcript update it requests reads the ref: inside the call when
  \<^verbatim>\<open>App\<close> has no lanes, which stores the partial text, and at the render otherwise, after
  the callback has emptied the ref, which stores the empty string.
\<close>

lemma safety_timeout_fires:
  assumes "safetyTimeout s = Some d" and "d \<le> ms"
  shows "\<not> isUserSpeaking (step_from l s (Elapse ms))
       \<and> streamingUserText (step_from l s (Elapse ms)) = []
       \<and> streamingUserTextRef (step_from l s (Elapse ms)) = []
       \<and> transcripts_user (step_from l s (Elapse ms)) =
           (if streamingUserTextRef s = [] then transcripts_user s
            else if l then [] else streamingUserTextRef s)"
proof -
  define s0 where "s0 = advance d (s\<lparr>safetyTimeout := None\<rparr>)"
  have st: "step_from l s (Elapse ms) = advance (ms - d) (dispatch l safetyTimeoutCallback s0)"
    using assms by (simp add: s0_def)
  have "app_fields (dispatch l safetyTimeoutCallback s0) =
          app_fields (render_app (safetyTimeoutCallback (event_batch l s0)))"
    by (rule dispatch_app_fields)
  then show ?thesis
    unfolding st
    by (simp add: app_fields_def advance_def s0_def render_safetyTimeoutCallback)
qed

text \<open>
  Without lanes the timeout does what it is meant to do: while the user is speaking, a
  partial text that is not blank and differs from the most recent user entry becomes the
  user transcript and is appended to the history, stamped with the time of the deadline.
\<close>

lemma safety_timeout_synthesizes_without_lanes:
  assumes "safetyTimeout s = Some d" and "d \<le> ms"
    and "isUserSpeaking s" and "prevIsUserSpeaking s"
    and "streamingUserTextRef s \<noteq> []" and "trim (streamingUserTextRef s) \<noteq> []"
    and "\<forall>m. List.find (\<lambda>m. speaker m = User) (rev (transcriptHistory s)) = Some m \<longrightarrow>
           msg_text m \<noteq> streamingUserTextRef s"
  shows "transcripts_user (step_from False s (Elapse ms)) = streamingUserTextRef s"
    and "transcriptHistory (step_from False s (Elapse ms)) =
           transcriptHistory s @
             [\<lparr>speaker = User, msg_text = streamingUserTextRef s, timestamp = now s + d\<rparr>]"
proof -
  define s0 where "s0 = advance d (s\<lparr>safetyTimeout := None\<rparr>)"
  define s1 where "s1 = s0\<lparr>transcripts_user := streamingUserTextRef s, streamingUserText := [],
      streamingUserTextRef := [], isUserSpeaking := False\<rparr>"
  have r: "render_app (safetyTimeoutCallback (event_batch False s0)) = s1"
    using assms(5) by (simp add: render_safetyTimeoutCallback s0_def s1_def advance_def)
  have st: "step_from False s (Elapse ms) = advance (ms - d) (settle s0 s1)"
    using assms(1,2) by (simp add: dispatch_def r[unfolded s0_def] s0_def)
  have "app_fields (settle s0 s1) = app_fields s1"
    by (rule settle_app_fields)
  then show "transcripts_user (step_from False s (Elapse ms)) = streamingUserTextRef s"
    unfolding st by (simp add: app_fields_def advance_def s1_def)
  have "transcriptHistory (effect_pass s0 s1) =
      transcriptHistory s @
        [\<lparr>speaker = User, msg_text = streamingUserTextRef s, timestamp = now s + d\<rparr>]"
    using assms(3-7)
    by (auto simp: s0_def s1_def advance_def effect_pass_def run_effects_def useEffect_def
        render_def setState_def mutate_def effect_defs appendUser_def Let_def
        split: option.splits)
  then show "transcriptHistory (step_from False s (Elapse ms)) =
      transcriptHistory s @
        [\<lparr>speaker = User, msg_text = streamingUserTextRef s, timestamp = now s + d\<rparr>]"
    unfolding st by (simp add: advance_def settle_history)
qed

text \<open>
  A new partial text while the user is speaking renders \<^verbatim>\<open>App\<close> and runs no effect of
  the layout: \<^verbatim>\<open>App\<close> rendered last and has lanes. An animation frame of an analysis
  loop renders the layout alone and resets them.
\<close>

lemma partial_text_leaves_lanes:
  assumes "isUserSpeaking s" and "t \<noteq> []" and "t \<noteq> streamingUserText s"
  shows "lanes_from l s (UserTranscript (Some t) (Some False))"
proof -
  define b where "b = handleUserTranscript (Some t) (Some False) (event_batch l s)"
  have r: "render_app b =
      s\<lparr>streamingUserText := t, streamingUserTextRef := t, isUserSpeaking := True\<rparr>"
    using assms(2) by (simp add: b_def render_handleUserTranscript)
  have q: "updateQueue b \<noteq> []" "\<not> newObject b"
    using assms
    by (cases l; simp add: b_def handleUserTranscript_def setter_defs event_batch_def Let_def)+
  have p: "effect_pass s (render_app b) = render_app b"
    unfolding r using assms(1)
    by (simp add: effect_pass_def run_effects_def useEffect_def render_def)
  have "lanes_after s b"
    using q assms(3) by (simp add: lanes_after_def p layout_changed_def app_changed_def) (simp add: r)
  then show ?thesis
    by (simp add: dispatch_lanes_def b_def)
qed

lemma frame_clears_lanes:
  "\<not> lanes_from l s VisualizerFrame \<and> step_from l s VisualizerFrame = s"
  by simp

text \<open>
  In a connected session a partial text "hi" is followed by an animation frame and by
  5000 ms without another event: the timeout stores "hi" and the layout appends it.
\<close>

lemma safety_timeout_keeps_partial_text_after_a_frame:
  "transcripts_user (run initial_store
      [Connected, TransportStateChanged ''ready'', UserStartedSpeaking,
       UserTranscript (Some ''hi'') (Some False), VisualizerFrame, Elapse 5000]) = ''hi''
   \<and> map msg_text (transcriptHistory (run initial_store
      [Connected, TransportStateChanged ''ready'', UserStartedSpeaking,
       UserTranscript (Some ''hi'') (Some False), VisualizerFrame, Elapse 5000])) = [''hi'']"
  by (simp add: eval_defs)

text \<open>
  Claim C2. After any sequence of events the transcript history has no two consecutive
  entries of the same speaker with the same text. A user transcript equal to the text of
  the most recent user entry is not appended, and neither is an agent transcript equal to
  the text of the most recent agent entry; a repeat that is not adjacent is appended: the
  agent texts "hello", "bye", "hello" give three entries, "hello" twice gives one.
\<close>

theorem history_never_repeats_consecutively:
  "no_repeat (transcriptHistory (run initial_store es))
   \<and> (List.find (\<lambda>m. speaker m = User) (rev (transcriptHistory s)) = Some m \<longrightarrow>
        transcriptHistory (step s (UserTranscript (Some (msg_text m)) ff)) = transcriptHistory s)
   \<and> (List.find (\<lambda>m. speaker m = Bot) (rev (transcriptHistory s')) = Some m' \<longrightarrow>
        transcriptHistory (step s' (BotTtsText (Some (msg_text m')))) = transcriptHistory s')
   \<and> map msg_text (transcriptHistory (run initial_store
        [BotTtsText (Some ''hello''), BotTtsText (Some ''bye''), BotTtsText (Some ''hello'')]))
      = [''hello'', ''bye'', ''hello'']
   \<and> map msg_text (transcriptHistory (run initial_store
        [BotTtsText (Some ''hello''), BotTtsText (Some ''hello'')])) = [''hello'']"
proof (intro conjI impI)
  show "no_repeat (transcriptHistory (run initial_store es))"
    by (rule run_no_repeat) (simp add: initial_store_def)
qed (simp_all only: duplicate_user_not_appended duplicate_bot_not_appended
      hello_bye_hello hello_hello)

text \<open>The theorem at a conversation that repeats itself, and at a repeated agent and user text.\<close>

theorem history_never_repeats_consecutively_witness:
  "no_repeat (transcriptHistory (run initial_store
      [UserTranscript (Some ''yes'') (Some True), BotTtsText (Some ''ok''),
       UserTranscript (Some ''yes'') (Some True), BotTtsText (Some ''ok'')]))
   \<and> List.find (\<lambda>m. speaker m = Bot)
        (rev (transcriptHistory (run initial_store [BotTtsText (Some ''hello'')])))
      = Some \<lparr>speaker = Bot, msg_text = ''hello'', timestamp = 0\<rparr>
   \<and> transcriptHistory (step (run initial_store [BotTtsText (Some ''hello'')])
        (BotTtsText (Some ''hello'')))
      = transcriptHistory (run initial_store [BotTtsText (Some ''hello'')])
   \<and> List.find (\<lambda>m. speaker m = User)
        (rev (transcriptHistory (run initial_store [UserTranscript (Some ''yes'') None])))
      = Some \<lparr>speaker = User, msg_text = ''yes'', timestamp = 0\<rparr>
   \<and> transcriptHistory (step (run initial_store [UserTranscript (Some ''yes'') None])
        (UserTranscript (Some ''yes'') (Some True)))
      = transcriptHistory (run initial_store [UserTranscript (Some ''yes'') None])"
proof -
  have b: "List.find (\<lambda>m. speaker m = Bot)
        (rev (transcriptHistory (run initial_store [BotTtsText (Some ''hello'')])))
      = Some \<lparr>speaker = Bot, msg_text = ''hello'', timestamp = 0\<rparr>"
    by (simp add: eval_defs)
  have u: "List.find (\<lambda>m. speaker m = User)
        (rev (transcriptHistory (run initial_store [UserTranscript (Some ''yes'') None])))
      = Some \<lparr>speaker = User, msg_text = ''yes'', timestamp = 0\<rparr>"
    by (simp add: eval_defs)
  show ?thesis
    using history_never_repeats_consecutively
      [of "[UserTranscript (Some ''yes'') (Some True), BotTtsText (Some ''ok''),
            UserTranscript (Some ''yes'') (Some True), BotTtsText (Some ''ok'')]"
          "run initial_store [UserTranscript (Some ''yes'') None]"
          "\<lparr>speaker = User, msg_text = ''yes'', timestamp = 0\<rparr>"
          "Some True"
          "run initial_store [BotTtsText (Some ''hello'')]"
          "\<lparr>speaker = Bot, msg_text = ''hello'', timestamp = 0\<rparr>"]
      b u
    by simp
qed

text \<open>
  The event order \<^verbatim>\<open>user_speaking_started\<close>, \<^verbatim>\<open>user_transcript{final:true}\<close>,
  \<^verbatim>\<open>agent_transcript\<close> drives the mode idle, listening, thinking, idle.
\<close>

lemma nominal_mode_sequence:
  "map (\<lambda>n. conversationState (run initial_store (take n
      [UserStartedSpeaking, UserTranscript (Some ''x'') (Some True), BotTtsText (Some ''y'')])))
     [0, 1, 2, 3]
   = [Idle, Listening, Thinking, Idle]"
  by (simp add: eval_defs)

text \<open>
  Claim C3 says that the interaction mode changes on edges only: a rising edge of
  user-speaking gives listening, a falling edge gives thinking, and thinking becomes idle
  when an agent entry is appended. The effect behind the last rule (its comment: "Clear
  thinking when bot responds") tests instead whether the last entry of the history is an
  agent entry whenever the mode or the history has changed. So a falling edge that
  appends no user entry after an agent entry ends in idle with no agent entry appended.
  Here the user says "yes", the agent answers, and the user says "yes" again: the second
  "yes" equals the most recent user entry and is not appended, the history still ends
  with the agent's entry, and the mode that the falling edge set to thinking is idle
  when the event has settled.
\<close>

theorem thinking_cleared_without_agent_entry:
  "conversationState (run initial_store
      [UserTranscript (Some ''yes'') (Some True), BotTtsText (Some ''ok''),
       UserStartedSpeaking]) = Listening
   \<and> isUserSpeaking (run initial_store
      [UserTranscript (Some ''yes'') (Some True), BotTtsText (Some ''ok''),
       UserStartedSpeaking])
   \<and> \<not> isUserSpeaking (run initial_store
      [UserTranscript (Some ''yes'') (Some True), BotTtsText (Some ''ok''),
       UserStartedSpeaking, UserTranscript (Some ''yes'') (Some True)])
   \<and> map speaker (transcriptHistory (run initial_store
      [UserTranscript (Some ''yes'') (Some True), BotTtsText (Some ''ok''),
       UserStartedSpeaking, UserTranscript (Some ''yes'') (Some True)])) = [User, Bot]
   \<and> conversationState (run initial_store
      [UserTranscript (Some ''yes'') (Some True), BotTtsText (Some ''ok''),
       UserStartedSpeaking, UserTranscript (Some ''yes'') (Some True)]) = Idle"
  by (simp add: eval_defs)

text \<open>
  Claim C5 says that when the user-speaking state has lasted 5 seconds with no
  finalisation, the store synthesises a final user transcript from the last partial text,
  clears the streaming state and the speaking flag. The callback requests
  \<^verbatim>\<open>setTranscripts(prev => ({ ...prev, user: streamingUserTextRef.current }))\<close> and then
  assigns \<^verbatim>\<open>streamingUserTextRef.current = ''\<close>. The updater reads the ref when React
  evaluates it: inside the call when \<^verbatim>\<open>App\<close> has no lanes, and at the next render, when
  the ref is already empty, when \<^verbatim>\<open>App\<close> rendered last. Here the session is connected
  and ready, the user starts speaking, the partial text "hi" arrives and animation frames
  follow; 4990 ms after the start, just after a frame, the partial text "hi there" arrives,
  and the timeout fires 10 ms later, before the next animation frame. The flag and the streaming text are
  cleared as the claim says, but the user transcript is the empty string and no entry has
  been appended to the history.
\<close>

theorem safety_timeout_loses_partial_text:
  "streamingUserTextRef (run initial_store
      [Connected, TransportStateChanged ''ready'', UserStartedSpeaking,
       UserTranscript (Some ''hi'') (Some False), VisualizerFrame, Elapse 4990,
       VisualizerFrame, UserTranscript (Some ''hi there'') (Some False)]) = ''hi there''
   \<and> isUserSpeaking (run initial_store
      [Connected, TransportStateChanged ''ready'', UserStartedSpeaking,
       UserTranscript (Some ''hi'') (Some False), VisualizerFrame, Elapse 4990,
       VisualizerFrame, UserTranscript (Some ''hi there'') (Some False)])
   \<and> safetyTimeout (run initial_store
      [Connected, TransportStateChanged ''ready'', UserStartedSpeaking,
       UserTranscript (Some ''hi'') (Some False), VisualizerFrame, Elapse 4990,
       VisualizerFrame, UserTranscript (Some ''hi there'') (Some False)]) = Some 10
   \<and> transcripts_user (run initial_store
      [Connected, TransportStateChanged ''ready'', UserStartedSpeaking,
       UserTranscript (Some ''hi'') (Some False), VisualizerFrame, Elapse 4990,
       VisualizerFrame, UserTranscript (Some ''hi there'') (Some False), Elapse 10]) = []
   \<and> transcriptHistory (run initial_store
      [Connected, TransportStateChanged ''ready'', UserStartedSpeaking,
       UserTranscript (Some ''hi'') (Some False), VisualizerFrame, Elapse 4990,
       VisualizerFrame, UserTranscript (Some ''hi there'') (Some False), Elapse 10]) = []
   \<and> \<not> isUserSpeaking (run initial_store
      [Connected, TransportStateChanged ''ready'', UserStartedSpeaking,
       UserTranscript (Some ''hi'') (Some False), VisualizerFrame, Elapse 4990,
       VisualizerFrame, UserTranscript (Some ''hi there'') (Some False), Elapse 10])
   \<and> streamingUserText (run initial_store
      [Connected, TransportStateChanged ''ready'', UserStartedSpeaking,
       UserTranscript (Some ''hi'') (Some False), VisualizerFrame, Elapse 4990,
       VisualizerFrame, UserTranscript (Some ''hi there'') (Some False), Elapse 10]) = []"
  by (simp add: eval_defs)

lemma dispatch_ServerMessage:
  "dispatch l (handleServerMessage message) s =
     (if is_state_update message
      then s\<lparr>courseState := course_of_payload (message_data message)\<rparr>
      else s)"
  by (simp add: dispatch_def render_handleServerMessage settle_quiet)

text \<open>
  Claim C4 says that after every \<^verbatim>\<open>state_update\<close> the discussed topics and the keys
  of \<^verbatim>\<open>responses\<close> are subsets of \<^verbatim>\<open>allTopics\<close>. The handler copies the payload
  without comparing its fields: a snapshot whose discussed topic is not in its catalogue
  is stored as it is.
\<close>

theorem store_copies_inconsistent_topics_counterexample:
  "\<not> topics_ok (courseState (step initial_store (ServerMessage (JObj
      [(''type'', JStr ''conversation_state_update''),
       (''all_topics'', JArr [JStr ''Lectures'']),
       (''discussed_topics'', JArr [JStr ''Exams''])]))))"
  by (simp add: step_def dispatch_ServerMessage is_state_update_def message_data_def
      course_of_payload_def or_default_def topics_ok_def arr_elems_def obj_keys_def)

text \<open>
  Claim C4, amended. The store keeps the two inclusions after each event of a sequence
  whenever every \<^verbatim>\<open>state_update\<close> of the sequence carries a payload that (with its
  defaults) has them; the other events leave the course state alone.
\<close>

theorem topics_subset_of_consistent_payloads:
  assumes "\<forall>e\<in>set es. consistent_event e"
  shows "\<forall>n\<le>length es. topics_ok (courseState (run initial_store (take n es)))"
proof (intro allI impI)
  fix n assume "n \<le> length es"
  have "\<forall>e\<in>set (take n es). consistent_event e"
    using assms by (auto dest: in_set_takeD)
  moreover have "topics_ok (courseState initial_store)"
    by (simp add: initial_store_def topics_ok_def arr_elems_def obj_keys_def)
  ultimately show "topics_ok (courseState (run initial_store (take n es)))"
    by (intro run_topics_ok)
qed

text \<open>The theorem at a consistent snapshot followed by another event.\<close>

theorem topics_subset_of_consistent_payloads_witness:
  "consistent_event (ServerMessage (JObj
        [(''type'', JStr ''conversation_state_update''),
         (''all_topics'', JArr [JStr ''Lectures'', JStr ''Exams'']),
         (''discussed_topics'', JArr [JStr ''Exams'']),
         (''responses'', JObj [(''Exams'', JObj [(''interested'', JBool True)])])]))
   \<and> consistent_event UserStartedSpeaking
   \<and> topics_ok (courseState (run initial_store [ServerMessage (JObj
        [(''type'', JStr ''conversation_state_update''),
         (''all_topics'', JArr [JStr ''Lectures'', JStr ''Exams'']),
         (''discussed_topics'', JArr [JStr ''Exams'']),
         (''responses'', JObj [(''Exams'', JObj [(''interested'', JBool True)])])])]))"
proof -
  have c: "consistent_event (ServerMessage (JObj
        [(''type'', JStr ''conversation_state_update''),
         (''all_topics'', JArr [JStr ''Lectures'', JStr ''Exams'']),
         (''discussed_topics'', JArr [JStr ''Exams'']),
         (''responses'', JObj [(''Exams'', JObj [(''interested'', JBool True)])])]))"
    by (simp add: is_state_update_def message_data_def course_of_payload_def
        or_default_def topics_ok_def arr_elems_def obj_keys_def)
  then have h: "\<forall>e\<in>set [ServerMessage (JObj
        [(''type'', JStr ''conversation_state_update''),
         (''all_topics'', JArr [JStr ''Lectures'', JStr ''Exams'']),
         (''discussed_topics'', JArr [JStr ''Exams'']),
         (''responses'', JObj [(''Exams'', JObj [(''interested'', JBool True)])])]),
       UserStartedSpeaking]. consistent_event e"
    by (simp del: consistent_event.simps(1))
  from topics_subset_of_consistent_payloads[OF h]
  have "1 \<le> length [ServerMessage (JObj
        [(''type'', JStr ''conversation_state_update''),
         (''all_topics'', JArr [JStr ''Lectures'', JStr ''Exams'']),
         (''discussed_topics'', JArr [JStr ''Exams'']),
         (''responses'', JObj [(''Exams'', JObj [(''interested'', JBool True)])])]),
       UserStartedSpeaking] \<longrightarrow>
     topics_ok (courseState (run initial_store (take 1 [ServerMessage (JObj
        [(''type'', JStr ''conversation_state_update''),
         (''all_topics'', JArr [JStr ''Lectures'', JStr ''Exams'']),
         (''discussed_topics'', JArr [JStr ''Exams'']),
         (''responses'', JObj [(''Exams'', JObj [(''interested'', JBool True)])])]),
       UserStartedSpeaking])))"
    by (rule spec)
  then show ?thesis
    using c by (simp del: consistent_event.simps(1))
qed

text \<open>
  Claim C6 says that a \<^verbatim>\<open>state_update\<close> replaces the course state wholesale and that a
  missing field falls back to the empty sequence, the empty mapping, \<^verbatim>\<open>"initial"\<close> or,
  for \<^verbatim>\<open>progress\<close>, the empty string. The code's default for \<^verbatim>\<open>progress\<close> is
  \<^verbatim>\<open>'0/3'\<close>: after a snapshot with progress \<^verbatim>\<open>"2/3"\<close>, a snapshot without the field
  leaves \<^verbatim>\<open>'0/3'\<close>, not the empty string.
\<close>

theorem missing_progress_default_counterexample:
  "progress (courseState (run initial_store
      [ServerMessage (JObj [(''type'', JStr ''conversation_state_update''),
                            (''progress'', JStr ''2/3'')]),
       ServerMessage (JObj [(''type'', JStr ''conversation_state_update'')])]))
   = JStr ''0/3''
   \<and> JStr ''0/3'' \<noteq> JStr []"
  by (simp add: run_def dispatch_ServerMessage is_state_update_def message_data_def
      course_of_payload_def or_default_def)

text \<open>
  Claim C6, amended. A \<^verbatim>\<open>conversation_state_update\<close> message changes the course state
  and nothing else in the store, and the new course state depends on the payload only:
  each field is the payload's value when that is present and truthy, and otherwise its
  default from \<open>course_fields\<close> (the empty array for the four topic lists, the empty
  object for \<^verbatim>\<open>responses\<close>, \<^verbatim>\<open>'initial'\<close> for \<^verbatim>\<open>current_node\<close> and \<^verbatim>\<open>'0/3'\<close>
  for \<^verbatim>\<open>progress\<close>). The handler is total: no payload makes it fail.
\<close>

theorem state_update_replaces_with_defaults:
  assumes "is_state_update message"
  shows "step s (ServerMessage message) =
           s\<lparr>courseState := courseState (step s (ServerMessage message))\<rparr>
       \<and> (\<forall>(k, dflt, field) \<in> set course_fields.
            field (courseState (step s (ServerMessage message))) =
              (case get_prop (message_data message) k of
                 None \<Rightarrow> dflt
               | Some x \<Rightarrow> if truthy x then x else dflt))"
  using assms
  by (simp add: step_ServerMessage course_fields_def course_of_payload_def or_default_def)

text \<open>The theorem at a snapshot with one list, an empty \<^verbatim>\<open>current_node\<close> and no \<^verbatim>\<open>progress\<close>.\<close>

theorem state_update_replaces_with_defaults_witness:
  "is_state_update (JObj [(''type'', JStr ''conversation_state_update''),
                          (''all_topics'', JArr [JStr ''Lectures'']),
                          (''current_node'', JStr [])])
   \<and> all_topics (courseState (step initial_store (ServerMessage
        (JObj [(''type'', JStr ''conversation_state_update''),
               (''all_topics'', JArr [JStr ''Lectures'']),
               (''current_node'', JStr [])])))) = JArr [JStr ''Lectures'']
   \<and> current_node (courseState (step initial_store (ServerMessage
        (JObj [(''type'', JStr ''conversation_state_update''),
               (''all_topics'', JArr [JStr ''Lectures'']),
               (''current_node'', JStr [])])))) = JStr ''initial''
   \<and> progress (courseState (step initial_store (ServerMessage
        (JObj [(''type'', JStr ''conversation_state_update''),
               (''all_topics'', JArr [JStr ''Lectures'']),
               (''current_node'', JStr [])])))) = JStr ''0/3''"
proof -
  have h: "is_state_update (JObj [(''type'', JStr ''conversation_state_update''),
                          (''all_topics'', JArr [JStr ''Lectures'']),
                          (''current_node'', JStr [])])"
    by (simp add: is_state_update_def message_data_def)
  show ?thesis
    using h state_update_replaces_with_defaults[OF h, of initial_store]
    by (simp add: course_fields_def message_data_def)
qed

text \<open>
  Claim C8 says that every transition of the channel to \<^verbatim>\<open>ready\<close> resets the interaction
  mode to idle. The effect that runs on that transition resets the transcript history and
  \<^verbatim>\<open>lastProcessedTts\<close> only: a mode left at thinking by the previous session is still
  thinking when the next session is ready.
\<close>

theorem mode_survives_ready_counterexample:
  "conversationState (run initial_store
      [Connected, TransportStateChanged ''ready'', UserStartedSpeaking,
       UserTranscript (Some ''yes'') (Some True),
       Disconnected, TransportStateChanged ''disconnected'',
       Connected, TransportStateChanged ''ready'']) = Thinking"
  by (simp add: eval_defs)

text \<open>
  Claim C8, amended. A change of the channel state to \<^verbatim>\<open>ready\<close> leaves the interaction
  mode as it was; what it resets, when the state was not \<^verbatim>\<open>ready\<close> before, is the
  transcript history and the last processed agent text.
\<close>

theorem ready_resets_history_not_mode:
  "conversationState (step s (TransportStateChanged ''ready'')) = conversationState s
   \<and> (transportState s \<noteq> ''ready'' \<longrightarrow>
        transcriptHistory (step s (TransportStateChanged ''ready'')) = []
        \<and> lastProcessedTts (step s (TransportStateChanged ''ready'')) = [])"
  by (simp add: step_TransportStateChanged)

text \<open>The theorem at a store whose mode is thinking.\<close>

theorem ready_resets_history_not_mode_witness:
  "transportState (run initial_store
      [UserStartedSpeaking, UserTranscript (Some ''yes'') (Some True)]) \<noteq> ''ready''
   \<and> conversationState (run initial_store
      [UserStartedSpeaking, UserTranscript (Some ''yes'') (Some True)]) = Thinking
   \<and> conversationState (step (run initial_store
      [UserStartedSpeaking, UserTranscript (Some ''yes'') (Some True)])
      (TransportStateChanged ''ready'')) = Thinking
   \<and> transcriptHistory (step (run initial_store
      [UserStartedSpeaking, UserTranscript (Some ''yes'') (Some True)])
      (TransportStateChanged ''ready'')) = []"
proof -
  have h: "transportState (run initial_store
      [UserStartedSpeaking, UserTranscript (Some ''yes'') (Some True)]) \<noteq> ''ready''
   \<and> conversationState (run initial_store
      [UserStartedSpeaking, UserTranscript (Some ''yes'') (Some True)]) = Thinking"
    by (simp add: eval_defs)
  show ?thesis
    using h ready_resets_history_not_mode[of "run initial_store
      [UserStartedSpeaking, UserTranscript (Some ''yes'') (Some True)]"]
    by simp
qed

text \<open>
  Claim C10. For a \<^verbatim>\<open>user_transcript\<close> event whose text is empty or absent,
  \<^verbatim>\<open>handleUserTranscript\<close> requests no update and assigns no ref, whatever
  \<^verbatim>\<open>final\<close> says: the whole store after the event is the store before it, so no
  transcript is recorded and the streaming text and the speaking flag keep their values.
\<close>

theorem empty_user_transcript_changes_nothing:
  assumes "text_field = None \<or> text_field = Some []"
  shows "handleUserTranscript text_field final_field a = a
       \<and> step s (UserTranscript text_field final_field) = s"
proof -
  have h: "handleUserTranscript text_field final_field = (\<lambda>a. a)"
    using assms by (auto simp: handleUserTranscript_def)
  show ?thesis
    by (simp add: h step_def dispatch_id)
qed

text \<open>The theorem while the user is speaking, for an empty and for an absent text, both marked final.\<close>

theorem empty_user_transcript_changes_nothing_witness:
  "(Some [] = None \<or> Some [] = Some ([] :: string))
   \<and> step (run initial_store [UserStartedSpeaking, UserTranscript (Some ''hi'') (Some False)])
        (UserTranscript (Some []) (Some True))
     = run initial_store [UserStartedSpeaking, UserTranscript (Some ''hi'') (Some False)]
   \<and> isUserSpeaking (step (run initial_store
        [UserStartedSpeaking, UserTranscript (Some ''hi'') (Some False)])
        (UserTranscript None (Some True)))"
proof -
  have sp: "isUserSpeaking (run initial_store
      [UserStartedSpeaking, UserTranscript (Some ''hi'') (Some False)])"
    by (simp add: eval_defs)
  show ?thesis
    using sp
      empty_user_transcript_changes_nothing[of "Some []" "Some True"
        "event_batch False initial_store"
        "run initial_store [UserStartedSpeaking, UserTranscript (Some ''hi'') (Some False)]"]
      empty_user_transcript_changes_nothing[of None "Some True"
        "event_batch False initial_store"
        "run initial_store [UserStartedSpeaking, UserTranscript (Some ''hi'') (Some False)]"]
    by simp
qed

section \<open>Connecting (\<^verbatim>\<open>App.tsx\<close>, \<^verbatim>\<open>handleConnect\<close>)\<close>

text \<open>
  \<^verbatim>\<open>
  const handleConnect = async () => {
    try {
      if (client.state !== 'disconnected') {
        try { await client.disconnect(); }
        catch (e) { console.warn('Disconnect failed during reconnect:', e); }
        await new Promise(resolve => setTimeout(resolve, 500));
      }
      setTranscripts({ user: '', bot: '' });
      await client.startBotAndConnect({ endpoint: '/api/start', requestData: {} });
    } catch {
      if (client.state === 'ready' || client.state === 'connecting') {
        try { await client.disconnect(); }
        catch (e) { console.warn('Disconnect failed during error recovery:', e); }
      }
    }
  };
  \<close>
  The client belongs to the transport library, so it is a parameter: a type \<open>'c\<close> of client
  states with the state name the code reads (\<open>state_of\<close>) and the two operations, each
  returning whether its promise was fulfilled and the client afterwards. A run of
  \<^verbatim>\<open>handleConnect\<close> yields how its own promise settles, the client it leaves and the
  actions it took, in order. Only \<^verbatim>\<open>startBotAndConnect\<close> can throw into the outer
  \<^verbatim>\<open>try\<close>; the \<^verbatim>\<open>catch\<close> block binds no error and throws none.
\<close>

subsection \<open>Definitions\<close>

record 'c transport =
  state_of :: "'c \<Rightarrow> string"
  disconnect :: "'c \<Rightarrow> bool \<times> 'c"
  startBotAndConnect :: "'c \<Rightarrow> bool \<times> 'c"

datatype action =
    CallDisconnect
  | Warn string
  | Wait nat
  | SetTranscripts string string
  | CallStartBotAndConnect

datatype outcome = Resolved | Rejected

record 'c connect_run =
  outcome :: outcome
  client :: 'c
  actions :: "action list"

definition try_disconnect :: "'c transport \<Rightarrow> string \<Rightarrow> 'c \<times> action list \<Rightarrow> 'c \<times> action list" where
  "try_disconnect T warning p =
     (if fst (disconnect T (fst p))
      then (snd (disconnect T (fst p)), snd p @ [CallDisconnect])
      else (snd (disconnect T (fst p)), snd p @ [CallDisconnect, Warn warning]))"

definition log_action :: "action \<Rightarrow> 'c \<times> action list \<Rightarrow> 'c \<times> action list" where
  "log_action x p = (fst p, snd p @ [x])"

definition before_connect :: "'c transport \<Rightarrow> 'c \<Rightarrow> 'c \<times> action list" where
  "before_connect T c =
     log_action (SetTranscripts [] [])
       (if state_of T c \<noteq> ''disconnected''
        then log_action (Wait 500)
               (try_disconnect T ''Disconnect failed during reconnect:'' (c, []))
        else (c, []))"

definition connect_attempt :: "'c transport \<Rightarrow> 'c \<times> action list \<Rightarrow> bool \<times> 'c \<times> action list" where
  "connect_attempt T p =
     (fst (startBotAndConnect T (fst p)),
      snd (startBotAndConnect T (fst p)),
      snd p @ [CallStartBotAndConnect])"

definition recover :: "'c transport \<Rightarrow> 'c \<times> action list \<Rightarrow> 'c \<times> action list" where
  "recover T p =
     (if state_of T (fst p) = ''ready'' \<or> state_of T (fst p) = ''connecting''
      then try_disconnect T ''Disconnect failed during error recovery:'' p
      else p)"

definition handleConnect :: "'c transport \<Rightarrow> 'c \<Rightarrow> 'c connect_run" where
  "handleConnect T c =
     (case connect_attempt T (before_connect T c) of
        (True, p) \<Rightarrow> \<lparr>outcome = Resolved, client = fst p, actions = snd p\<rparr>
      | (False, p) \<Rightarrow>
          \<lparr>outcome = Resolved, client = fst (recover T p), actions = snd (recover T p)\<rparr>)"

definition half_open_transport :: "string transport" where
  "half_open_transport =
     \<lparr> state_of = (\<lambda>c. c),
       disconnect = (\<lambda>c. (True, ''disconnected'')),
       startBotAndConnect = (\<lambda>c. (False, ''connecting'')) \<rparr>"

definition stuck_transport :: "string transport" where
  "stuck_transport =
     \<lparr> state_of = (\<lambda>c. c),
       disconnect = (\<lambda>c. (False, c)),
       startBotAndConnect = (\<lambda>c. (False, ''connecting'')) \<rparr>"

subsection \<open>Properties\<close>

lemmas connect_defs = handleConnect_def connect_attempt_def before_connect_def recover_def
  try_disconnect_def log_action_def

text \<open>
  Claim C7 says that when a connect attempt fails with the transport in \<^verbatim>\<open>ready\<close> or
  \<^verbatim>\<open>connecting\<close>, the manager forces a disconnect, surfaces the failure to the caller,
  and the channel state settles to \<^verbatim>\<open>disconnected\<close>. With a transport whose connect
  attempt fails in \<^verbatim>\<open>connecting\<close>, the promise of \<^verbatim>\<open>handleConnect\<close> is fulfilled all
  the same; and when the forced disconnect fails too, the state stays \<^verbatim>\<open>connecting\<close>.
\<close>

theorem connect_failure_not_surfaced_counterexample:
  "fst (startBotAndConnect half_open_transport ''disconnected'') = False
   \<and> state_of half_open_transport (snd (startBotAndConnect half_open_transport ''disconnected''))
       = ''connecting''
   \<and> outcome (handleConnect half_open_transport ''disconnected'') \<noteq> Rejected
   \<and> state_of stuck_transport (client (handleConnect stuck_transport ''disconnected''))
       \<noteq> ''disconnected''"
  by (simp add: connect_defs half_open_transport_def stuck_transport_def)

text \<open>
  Claim C7, amended. When the connect attempt fails and leaves the transport in
  \<^verbatim>\<open>ready\<close> or \<^verbatim>\<open>connecting\<close>, \<^verbatim>\<open>handleConnect\<close> calls \<^verbatim>\<open>disconnect\<close> once more,
  right after the attempt, and only warns if that fails; its own promise is fulfilled, so
  the caller does not see the failure; and the client it leaves is the one that
  disconnect leaves, which is in state \<^verbatim>\<open>disconnected\<close> when the disconnect brings it
  there.
\<close>

theorem connect_failure_forces_disconnect:
  assumes "connect_attempt T (before_connect T c) = (False, c', acts)"
    and "state_of T c' = ''ready'' \<or> state_of T c' = ''connecting''"
  shows "outcome (handleConnect T c) = Resolved
       \<and> client (handleConnect T c) = snd (disconnect T c')
       \<and> actions (handleConnect T c) =
           acts @ (if fst (disconnect T c') then [CallDisconnect]
                  else [CallDisconnect, Warn ''Disconnect failed during error recovery:''])
       \<and> last acts = CallStartBotAndConnect
       \<and> (state_of T (snd (disconnect T c')) = ''disconnected'' \<longrightarrow>
            state_of T (client (handleConnect T c)) = ''disconnected'')"
proof -
  have "last acts = CallStartBotAndConnect"
    using assms(1) by (auto simp: connect_attempt_def)
  then show ?thesis
    using assms by (auto simp: handleConnect_def recover_def try_disconnect_def)
qed

text \<open>The theorem at a reconnect from \<^verbatim>\<open>ready\<close> over a transport whose connect attempt fails half-open.\<close>

theorem connect_failure_forces_disconnect_witness:
  "connect_attempt half_open_transport (before_connect half_open_transport ''ready'')
     = (False, ''connecting'',
        [CallDisconnect, Wait 500, SetTranscripts [] [], CallStartBotAndConnect])
   \<and> outcome (handleConnect half_open_transport ''ready'') = Resolved
   \<and> actions (handleConnect half_open_transport ''ready'')
     = [CallDisconnect, Wait 500, SetTranscripts [] [], CallStartBotAndConnect, CallDisconnect]
   \<and> state_of half_open_transport (client (handleConnect half_open_transport ''ready''))
     = ''disconnected''"
proof -
  have h: "connect_attempt half_open_transport (before_connect half_open_transport ''ready'')
     = (False, ''connecting'',
        [CallDisconnect, Wait 500, SetTranscripts [] [], CallStartBotAndConnect])"
    by (simp add: connect_attempt_def before_connect_def try_disconnect_def log_action_def
        half_open_transport_def)
  have d: "disconnect half_open_transport ''connecting'' = (True, ''disconnected'')"
    "state_of half_open_transport ''connecting'' = ''connecting''"
    "state_of half_open_transport ''disconnected'' = ''disconnected''"
    by (simp_all add: half_open_transport_def)
  show ?thesis
    using h connect_failure_forces_disconnect[OF h] d by simp
qed

text \<open>No run of \<^verbatim>\<open>handleConnect\<close> rejects.\<close>

lemma handleConnect_always_resolves: "outcome (handleConnect T c) = Resolved"
  by (simp add: handleConnect_def split: prod.splits bool.splits)

end
